theory Spec2Isabelle
  imports Main "HOL-Library.AList"
begin

section \<open>The analysis pipeline of Shape-Out 2 (shapeout2/pipeline/core.py)\<close>

text \<open>
  The class \<^verbatim>\<open>Pipeline\<close> keeps ordered lists of filters, plots and slots, a
  dictionary of per-slot element states, and a matrix of dataset hierarchies
  (one row per slot, one cell per filter stage plus the raw dataset).
  Python objects that are shared and mutated in place (filter, plot and slot
  instances, the rows of the matrix, the datasets) live in explicit stores
  here; every exception is a value that carries the state at the moment it
  was raised.
\<close>

subsection \<open>Python lists and dictionaries\<close>

type_synonym ident = string

datatype error = ValueError | KeyError | IndexError | AttributeError | InvalidReference

text \<open>
  \<^verbatim>\<open>InvalidReference\<close> is no Python exception: it marks a store address that
  holds no object, which cannot arise in Python where a list holds the
  object itself.
\<close>

text \<open>\<^verbatim>\<open>list.insert(index, x)\<close>: a negative index counts from the end, and
  the index is clamped to the list.\<close>

definition py_insert :: "'a list \<Rightarrow> int \<Rightarrow> 'a \<Rightarrow> 'a list" where
  "py_insert xs i x =
     (let n = int (length xs);
          j = (if i < 0 then max 0 (n + i) else min i n)
      in take (nat j) xs @ x # drop (nat j) xs)"

text \<open>\<^verbatim>\<open>xs[i]\<close>: a negative index counts from the end; \<^verbatim>\<open>None\<close> stands
  for IndexError.\<close>

definition py_get :: "'a list \<Rightarrow> int \<Rightarrow> 'a option" where
  "py_get xs i =
     (let n = int (length xs);
          j = (if i < 0 then n + i else i)
      in if 0 \<le> j \<and> j < n then Some (xs ! nat j) else None)"

text \<open>\<^verbatim>\<open>xs.index(x)\<close>: the first position of x; \<^verbatim>\<open>None\<close> stands for
  ValueError.\<close>

fun py_index :: "'a list \<Rightarrow> 'a \<Rightarrow> nat option" where
  "py_index [] x = None"
| "py_index (y # ys) x = (if y = x then Some 0 else map_option Suc (py_index ys x))"

text \<open>\<^verbatim>\<open>xs.pop(i)\<close> for an index in range.\<close>

definition py_pop :: "'a list \<Rightarrow> nat \<Rightarrow> 'a list" where
  "py_pop xs i = take i xs @ drop (Suc i) xs"

text \<open>\<^verbatim>\<open>range(n)\<close> for a Python integer n.\<close>

definition py_range :: "int \<Rightarrow> nat list" where
  "py_range n = [0 ..< nat n]"

text \<open>Dictionaries are association lists in insertion order
  (\<^const>\<open>AList.update\<close> is \<^verbatim>\<open>d[k] = v\<close>); Python compares them as maps.\<close>

definition dict_eq :: "('v \<Rightarrow> 'v \<Rightarrow> bool) \<Rightarrow> ('k \<times> 'v) list \<Rightarrow> ('k \<times> 'v) list \<Rightarrow> bool" where
  "dict_eq veq xs ys =
     list_all (\<lambda>k. case (map_of xs k, map_of ys k) of
                      (Some a, Some b) \<Rightarrow> veq a b
                    | _ \<Rightarrow> False)
       (map fst xs @ map fst ys)"

subsection \<open>Filters, plots, slots and datasets\<close>

text \<open>
  Modelled from the spec: the classes Filter, Plot and Dataslot (filter.py,
  plot.py, dataslot.py are not part of the sources at hand).  An instance is
  known by its identifier; the class-level dictionary \<^verbatim>\<open>_instances\<close> maps the
  identifier to the live instance, here to the instance's current
  configuration.  The pipeline's lists hold references to instances, here
  their identifiers.
\<close>

record filtering =
  enable_filters :: bool
  box_limits :: "(string \<times> int \<times> int) list"

record dataslot =
  slot_path :: string
  slot_color :: string
  slot_config :: "(string \<times> string) list"

type_synonym plot_config = "(string \<times> string) list"

text \<open>What \<^verbatim>\<open>add_filter\<close>, \<^verbatim>\<open>add_plot\<close> and \<^verbatim>\<open>add_slot\<close> accept besides
  \<^verbatim>\<open>None\<close>: an instance, or the dictionary \<^verbatim>\<open>__getstate__\<close> returns (the
  identifier and the configuration).\<close>

datatype 'c entity = Instance ident | State ident 'c

text \<open>A dataset of dclab: opened from a path with a given identifier, or a
  hierarchy child of its parent.  \<^verbatim>\<open>config["filtering"]\<close> is its filtering
  configuration, \<open>cfg_slot\<close> what \<^verbatim>\<open>Dataslot.update_dataset\<close> wrote last,
  \<open>filter_mask\<close> the filtering configuration \<^verbatim>\<open>apply_filter\<close> last computed
  the event mask for.\<close>

datatype origin = FromFile string | HParent nat

record dataset =
  ds_identifier :: "ident option"
  ds_origin :: origin
  cfg_filtering :: filtering
  cfg_slot :: "(string \<times> string) list"
  filter_mask :: "filtering option"

definition default_filtering :: filtering where
  "default_filtering = \<lparr>enable_filters = True, box_limits = []\<rparr>"

text \<open>\<^verbatim>\<open>dclab.new_dataset(path, identifier=identifier)\<close>\<close>

definition new_dataset :: "string \<Rightarrow> ident \<Rightarrow> dataset" where
  "new_dataset path identifier =
     \<lparr>ds_identifier = Some identifier, ds_origin = FromFile path,
      cfg_filtering = default_filtering, cfg_slot = [], filter_mask = None\<rparr>"

text \<open>\<^verbatim>\<open>RTDC_Hierarchy(hparent=ds, apply_filter=False)\<close>; the library chooses
  the child's identifier (\<^verbatim>\<open>None\<close> here).\<close>

definition RTDC_Hierarchy :: "nat \<Rightarrow> dataset" where
  "RTDC_Hierarchy hparent =
     \<lparr>ds_identifier = None, ds_origin = HParent hparent,
      cfg_filtering = default_filtering, cfg_slot = [], filter_mask = None\<rparr>"

subsection \<open>The pipeline state\<close>

text \<open>The serialized state of \<^verbatim>\<open>__getstate__\<close> and \<^verbatim>\<open>__setstate__\<close>.\<close>

record state_dict =
  st_elements :: "(ident \<times> (ident \<times> bool) list) list"
  st_filters :: "(ident \<times> filtering) list"
  st_filters_used :: "ident list"
  st_plots :: "(ident \<times> plot_config) list"
  st_slots :: "(ident \<times> dataslot) list"
  st_slots_used :: "ident list"

text \<open>
  \<^verbatim>\<open>self._old_state = state\<close> keeps the dictionary itself, and
  \<^verbatim>\<open>self.filters_used = state["filters used"]\<close> (likewise the used slots and
  the element states) makes the pipeline's attribute the very object the
  kept dictionary holds: a later \<^verbatim>\<open>append\<close> through the attribute changes the
  kept dictionary too.  \<^verbatim>\<open>None\<close> in the last three fields says that the
  entry is the object the pipeline's attribute is bound to.
\<close>

record old_state_dict =
  old_filters :: "(ident \<times> filtering) list"
  old_plots :: "(ident \<times> plot_config) list"
  old_slots :: "(ident \<times> dataslot) list"
  old_filters_used :: "ident list option"
  old_slots_used :: "ident list option"
  old_elements :: "(ident \<times> (ident \<times> bool) list) list option"

record pstate =
  filters :: "ident list"
  filters_used :: "ident list"
  plots :: "ident list"
  slots :: "ident list"
  slots_used :: "ident list"
  element_states :: "(ident \<times> (ident \<times> bool) list) list"
  matrix :: "nat list"
  matrix_hash :: "(ident list \<times> ident list) option"
  matrix_slots :: "ident list"
  matrix_filters :: "ident list"
  old_state :: "old_state_dict option"
  Filter_instances :: "(ident \<times> filtering) list"
  Plot_instances :: "(ident \<times> plot_config) list"
  Dataslot_instances :: "(ident \<times> dataslot) list"
  row_store :: "nat list list"
  dataset_store :: "dataset list"

text \<open>
  The first eleven fields are the attributes of the \<^verbatim>\<open>Pipeline\<close> object
  (\<open>matrix\<close> lists the addresses of its rows, \<open>matrix_hash = None\<close> is the
  initial \<^verbatim>\<open>"None"\<close>, \<open>old_state = None\<close> the initial \<^verbatim>\<open>{}\<close>); the last five are
  the process-wide stores: the three instance dictionaries, the row lists
  and the datasets, each addressed by its position.
\<close>

type_synonym 'a result = "(error \<times> pstate) + ('a \<times> pstate)"

definition filter_ids :: "pstate \<Rightarrow> ident list" where
  "filter_ids s = filters s"

definition plot_ids :: "pstate \<Rightarrow> ident list" where
  "plot_ids s = plots s"

definition slot_ids :: "pstate \<Rightarrow> ident list" where
  "slot_ids s = slots s"

definition num_filters :: "pstate \<Rightarrow> nat" where
  "num_filters s = length (filters s)"

definition num_plots :: "pstate \<Rightarrow> nat" where
  "num_plots s = length (filters s)"

definition num_slots :: "pstate \<Rightarrow> nat" where
  "num_slots s = length (slots s)"

text \<open>The value of the dictionary \<^verbatim>\<open>self._old_state\<close> as it stands now.\<close>

definition old_state_value :: "pstate \<Rightarrow> state_dict option" where
  "old_state_value s =
     (case old_state s of
        None \<Rightarrow> None
      | Some c \<Rightarrow> Some
          \<lparr>st_elements = (case old_elements c of None \<Rightarrow> element_states s | Some e \<Rightarrow> e),
           st_filters = old_filters c,
           st_filters_used = (case old_filters_used c of None \<Rightarrow> filters_used s | Some u \<Rightarrow> u),
           st_plots = old_plots c,
           st_slots = old_slots c,
           st_slots_used = (case old_slots_used c of None \<Rightarrow> slots_used s | Some u \<Rightarrow> u)\<rparr>)"

definition state_eq :: "state_dict \<Rightarrow> state_dict \<Rightarrow> bool" where
  "state_eq a b =
     (dict_eq (dict_eq (=)) (st_elements a) (st_elements b)
      \<and> st_filters a = st_filters b
      \<and> st_filters_used a = st_filters_used b
      \<and> st_plots a = st_plots b
      \<and> st_slots a = st_slots b
      \<and> st_slots_used a = st_slots_used b)"

text \<open>\<^verbatim>\<open>reset\<close> binds six attributes to fresh empty objects; entries of the
  kept state dictionary that were shared with an attribute keep their
  value.\<close>

definition reset :: "pstate \<Rightarrow> pstate" where
  "reset s =
     s\<lparr>filters := [], filters_used := [], plots := [], slots := [],
       slots_used := [], element_states := [],
       old_state := map_option (\<lambda>c. c\<lparr>
           old_filters_used := Some (case old_filters_used c of None \<Rightarrow> filters_used s | Some u \<Rightarrow> u),
           old_slots_used := Some (case old_slots_used c of None \<Rightarrow> slots_used s | Some u \<Rightarrow> u),
           old_elements := Some (case old_elements c of None \<Rightarrow> element_states s | Some e \<Rightarrow> e)\<rparr>)
         (old_state s)\<rparr>"

text \<open>\<^verbatim>\<open>Pipeline()\<close> in a process that has created no instance yet.\<close>

definition Pipeline :: pstate where
  "Pipeline =
     \<lparr>filters = [], filters_used = [], plots = [], slots = [], slots_used = [],
      element_states = [], matrix = [], matrix_hash = None, matrix_slots = [],
      matrix_filters = [], old_state = None,
      Filter_instances = [], Plot_instances = [], Dataslot_instances = [],
      row_store = [], dataset_store = []\<rparr>"

subsection \<open>Adding filters, plots and slots\<close>

text \<open>Modelled from the spec: the identifier a constructor mints is one no
  live instance of the class carries.\<close>

definition fresh_identifier :: "string \<Rightarrow> (ident \<times> 'a) list \<Rightarrow> ident" where
  "fresh_identifier prefix tbl =
     prefix @ replicate (Suc (fold max (map (length \<circ> fst) tbl) 0)) (CHR ''#'')"

text \<open>\<^verbatim>\<open>self.element_states[slot_id][elem_id] = False\<close>\<close>

definition set_element_false :: "ident \<Rightarrow> ident \<Rightarrow> pstate \<Rightarrow> pstate option" where
  "set_element_false slot_id elem_id s =
     (case map_of (element_states s) slot_id of
        None \<Rightarrow> None
      | Some d \<Rightarrow> Some (s\<lparr>element_states :=
                    AList.update slot_id (AList.update elem_id False d) (element_states s)\<rparr>))"

text \<open>\<^verbatim>\<open>for slot_id in self.slot_ids: self.element_states[slot_id][elem_id] = False\<close>\<close>

fun init_for_slots :: "ident list \<Rightarrow> ident \<Rightarrow> pstate \<Rightarrow> (error \<times> pstate) + pstate" where
  "init_for_slots [] elem_id s = Inr s"
| "init_for_slots (slot_id # rest) elem_id s =
     (case set_element_false slot_id elem_id s of
        None \<Rightarrow> Inl (KeyError, s)
      | Some s' \<Rightarrow> init_for_slots rest elem_id s')"

text \<open>\<^verbatim>\<open>for filt_id in self.filter_ids: self.element_states[slot_id][filt_id] = False\<close>\<close>

fun init_for_filters :: "ident list \<Rightarrow> ident \<Rightarrow> pstate \<Rightarrow> (error \<times> pstate) + pstate" where
  "init_for_filters [] slot_id s = Inr s"
| "init_for_filters (filt_id # rest) slot_id s =
     (case set_element_false slot_id filt_id s of
        None \<Rightarrow> Inl (KeyError, s)
      | Some s' \<Rightarrow> init_for_filters rest slot_id s')"

text \<open>The argument of \<^verbatim>\<open>add_filter\<close> resolved to an instance: \<^verbatim>\<open>Filter()\<close>
  for \<^verbatim>\<open>None\<close>, the instance itself, or for a state dictionary the live
  instance of that identifier (else a new one) after \<^verbatim>\<open>__setstate__\<close>.\<close>

definition resolve_filter :: "filtering entity option \<Rightarrow> pstate \<Rightarrow> ident \<times> pstate" where
  "resolve_filter filt s =
     (case filt of
        None \<Rightarrow>
          (let i = fresh_identifier ''Filter_'' (Filter_instances s)
           in (i, s\<lparr>Filter_instances := AList.update i default_filtering (Filter_instances s)\<rparr>))
      | Some (Instance i) \<Rightarrow> (i, s)
      | Some (State i c) \<Rightarrow>
          (i, s\<lparr>Filter_instances := AList.update i c (Filter_instances s)\<rparr>))"

definition add_filter :: "filtering entity option \<Rightarrow> int option \<Rightarrow> pstate \<Rightarrow> ident result" where
  "add_filter filt index s =
     (let index' = (case index of None \<Rightarrow> int (length (filters s)) | Some i \<Rightarrow> i);
          (filt_id, s1) = resolve_filter filt s;
          s2 = s1\<lparr>filters := py_insert (filters s1) index' filt_id\<rparr>
      in case init_for_slots (slot_ids s2) filt_id s2 of
           Inl e \<Rightarrow> Inl e
         | Inr s3 \<Rightarrow> Inr (filt_id, s3\<lparr>filters_used := filters_used s3 @ [filt_id]\<rparr>))"

definition resolve_plot :: "plot_config entity option \<Rightarrow> pstate \<Rightarrow> ident \<times> pstate" where
  "resolve_plot plot s =
     (case plot of
        None \<Rightarrow>
          (let i = fresh_identifier ''Plot_'' (Plot_instances s)
           in (i, s\<lparr>Plot_instances := AList.update i [] (Plot_instances s)\<rparr>))
      | Some (Instance i) \<Rightarrow> (i, s)
      | Some (State i c) \<Rightarrow>
          (i, s\<lparr>Plot_instances := AList.update i c (Plot_instances s)\<rparr>))"

definition add_plot :: "plot_config entity option \<Rightarrow> int option \<Rightarrow> pstate \<Rightarrow> ident result" where
  "add_plot plot index s =
     (let index' = (case index of None \<Rightarrow> int (length (plots s)) | Some i \<Rightarrow> i);
          (plot_id, s1) = resolve_plot plot s;
          s2 = s1\<lparr>plots := py_insert (plots s1) index' plot_id\<rparr>
      in case init_for_slots (slot_ids s2) plot_id s2 of
           Inl e \<Rightarrow> Inl e
         | Inr s3 \<Rightarrow> Inr (plot_id, s3))"

text \<open>\<^verbatim>\<open>slot.path\<close> of the instance with the given identifier.\<close>

definition path_of :: "pstate \<Rightarrow> ident \<Rightarrow> string option" where
  "path_of s slot_id = map_option slot_path (map_of (Dataslot_instances s) slot_id)"

text \<open>The argument of \<^verbatim>\<open>add_slot\<close> resolved to an instance:
  \<^verbatim>\<open>Dataslot(path=path)\<close> for a path, else as for filters.  \<^verbatim>\<open>add_slot\<close> raises
  its ValueError before this when both or neither of slot and path are
  given, so the last case is never reached.\<close>

definition resolve_slot :: "dataslot entity option \<Rightarrow> string option \<Rightarrow> pstate \<Rightarrow> ident \<times> pstate" where
  "resolve_slot slot path s =
     (case path of
        Some p \<Rightarrow>
          (let i = fresh_identifier ''Dataslot_'' (Dataslot_instances s)
           in (i, s\<lparr>Dataslot_instances :=
                 AList.update i \<lparr>slot_path = p, slot_color = ''blue'', slot_config = []\<rparr>
                   (Dataslot_instances s)\<rparr>))
      | None \<Rightarrow>
          (case slot of
             Some (State i c) \<Rightarrow>
               (i, s\<lparr>Dataslot_instances := AList.update i c (Dataslot_instances s)\<rparr>)
           | Some (Instance i) \<Rightarrow> (i, s)
           | None \<Rightarrow> ([], s)))"

text \<open>
  The end of \<^verbatim>\<open>add_slot\<close>, "check that the features are all the same":
  the features of the first slot of the list and of the new slot are
  compared and a ValueError is raised when they differ.
  \<open>get_rtdc_features\<close> is \<^verbatim>\<open>meta_tool.get_rtdc_features\<close>, the features stored
  in the file at a path.
\<close>

definition check_features :: "(string \<Rightarrow> string list) \<Rightarrow> ident \<Rightarrow> pstate \<Rightarrow> ident result" where
  "check_features get_rtdc_features slot_id s =
     (case (path_of s (hd (slots s)), path_of s slot_id) of
        (Some p0, Some p) \<Rightarrow>
          if get_rtdc_features p0 \<noteq> get_rtdc_features p
          then Inl (ValueError, s)
          else Inr (slot_id, s)
      | _ \<Rightarrow> Inl (InvalidReference, s))"

text \<open>
  \<^verbatim>\<open>add_slot\<close>: the slot is inserted, its element states are initialised
  and it is marked as used before the features are compared; the ValueError
  of the comparison is raised in that state.
\<close>

definition add_slot ::
  "(string \<Rightarrow> string list) \<Rightarrow> dataslot entity option \<Rightarrow> string option \<Rightarrow> int option
     \<Rightarrow> pstate \<Rightarrow> ident result" where
  "add_slot get_rtdc_features slot path index s =
     (let index' = (case index of None \<Rightarrow> int (length (slots s)) | Some i \<Rightarrow> i)
      in if (slot = None \<and> path = None) \<or> (slot \<noteq> None \<and> path \<noteq> None)
         then Inl (ValueError, s)
         else
           (let (slot_id, s1) = resolve_slot slot path s;
                s2 = s1\<lparr>slots := py_insert (slots s1) index' slot_id\<rparr>;
                s3 = s2\<lparr>element_states := AList.update slot_id [] (element_states s2)\<rparr>
            in case init_for_filters (filter_ids s3) slot_id s3 of
                 Inl e \<Rightarrow> Inl e
               | Inr s4 \<Rightarrow>
                   check_features get_rtdc_features slot_id
                     (s4\<lparr>slots_used := slots_used s4 @ [slot_id]\<rparr>)))"

subsection \<open>Removing filters, plots and slots\<close>

definition remove_filter :: "ident \<Rightarrow> pstate \<Rightarrow> unit result" where
  "remove_filter filt_id s =
     (case py_index (filter_ids s) filt_id of
        None \<Rightarrow> Inl (ValueError, s)
      | Some index \<Rightarrow>
          (let s1 = s\<lparr>filters := py_pop (filters s) index\<rparr>;
               s2 = (if filt_id \<in> set (filters_used s1)
                     then s1\<lparr>filters_used := remove1 filt_id (filters_used s1)\<rparr>
                     else s1)
           in Inr ((), s2\<lparr>element_states :=
                 map (\<lambda>(slot_id, d). (slot_id, AList.delete filt_id d)) (element_states s2)\<rparr>)))"

definition remove_plot :: "ident \<Rightarrow> pstate \<Rightarrow> unit result" where
  "remove_plot plot_id s =
     (case py_index (plot_ids s) plot_id of
        None \<Rightarrow> Inl (ValueError, s)
      | Some index \<Rightarrow>
          (let s1 = s\<lparr>plots := py_pop (plots s) index\<rparr>
           in Inr ((), s1\<lparr>element_states :=
                 map (\<lambda>(slot_id, d). (slot_id, AList.delete plot_id d)) (element_states s1)\<rparr>)))"

text \<open>
  \<^verbatim>\<open>remove_slot\<close> looks the slot identifier up in \<^verbatim>\<open>self.filter_ids\<close> and pops
  from \<^verbatim>\<open>self.filters\<close>; the next statement reads \<^verbatim>\<open>self.plots_used\<close>, an
  attribute no method ever sets, so what follows it (removing the
  identifier from that list and from the element states) is never reached.
\<close>

definition remove_slot :: "ident \<Rightarrow> pstate \<Rightarrow> unit result" where
  "remove_slot slot_id s =
     (case py_index (filter_ids s) slot_id of
        None \<Rightarrow> Inl (ValueError, s)
      | Some index \<Rightarrow> Inl (AttributeError, s\<lparr>filters := py_pop (filters s) index\<rparr>))"

subsection \<open>Datasets and rows in the store\<close>

definition alloc_dataset :: "dataset \<Rightarrow> pstate \<Rightarrow> nat \<times> pstate" where
  "alloc_dataset d s = (length (dataset_store s), s\<lparr>dataset_store := dataset_store s @ [d]\<rparr>)"

definition alloc_row :: "nat list \<Rightarrow> pstate \<Rightarrow> nat \<times> pstate" where
  "alloc_row row s = (length (row_store s), s\<lparr>row_store := row_store s @ [row]\<rparr>)"

definition get_ds :: "pstate \<Rightarrow> nat \<Rightarrow> dataset option" where
  "get_ds s a = (if a < length (dataset_store s) then Some (dataset_store s ! a) else None)"

definition get_row :: "pstate \<Rightarrow> nat \<Rightarrow> nat list option" where
  "get_row s r = (if r < length (row_store s) then Some (row_store s ! r) else None)"

definition put_ds :: "nat \<Rightarrow> dataset \<Rightarrow> pstate \<Rightarrow> pstate" where
  "put_ds a d s = s\<lparr>dataset_store := (dataset_store s)[a := d]\<rparr>"

text \<open>Modelled from the spec: \<^verbatim>\<open>Dataslot.update_dataset(ds)\<close> applies the
  slot's own configuration overrides to the dataset.\<close>

definition Dataslot_update_dataset :: "ident \<Rightarrow> nat \<Rightarrow> pstate \<Rightarrow> pstate option" where
  "Dataslot_update_dataset slot_id a s =
     (case (map_of (Dataslot_instances s) slot_id, get_ds s a) of
        (Some c, Some d) \<Rightarrow> Some (put_ds a (d\<lparr>cfg_slot := slot_config c\<rparr>) s)
      | _ \<Rightarrow> None)"

text \<open>Modelled from the spec: \<^verbatim>\<open>Filter.update_dataset(ds)\<close> pushes the
  filter's current parameter configuration onto the dataset.\<close>

definition Filter_update_dataset :: "ident \<Rightarrow> nat \<Rightarrow> pstate \<Rightarrow> pstate option" where
  "Filter_update_dataset filt_id a s =
     (case (map_of (Filter_instances s) filt_id, get_ds s a) of
        (Some c, Some d) \<Rightarrow> Some (put_ds a (d\<lparr>cfg_filtering := c\<rparr>) s)
      | _ \<Rightarrow> None)"

text \<open>\<^verbatim>\<open>ds.config["filtering"]["enable filters"] = False\<close>\<close>

definition disable_filters :: "nat \<Rightarrow> pstate \<Rightarrow> pstate option" where
  "disable_filters a s =
     (case get_ds s a of
        Some d \<Rightarrow> Some (put_ds a (d\<lparr>cfg_filtering := (cfg_filtering d)\<lparr>enable_filters := False\<rparr>\<rparr>) s)
      | None \<Rightarrow> None)"

text \<open>Modelled from the spec: \<^verbatim>\<open>ds.apply_filter()\<close> computes the event mask
  for the dataset's filtering configuration as it stands.\<close>

definition apply_filter_ds :: "nat \<Rightarrow> pstate \<Rightarrow> pstate option" where
  "apply_filter_ds a s =
     (case get_ds s a of
        Some d \<Rightarrow> Some (put_ds a (d\<lparr>filter_mask := Some (cfg_filtering d)\<rparr>) s)
      | None \<Rightarrow> None)"

subsection \<open>Constructing the matrix\<close>

text \<open>Modelled from the spec: \<^verbatim>\<open>util.hashobj\<close>, a structural hash of the
  ordered slot and filter identifiers, taken to be free of collisions.\<close>

definition hashobj :: "ident list \<times> ident list \<Rightarrow> ident list \<times> ident list" where
  "hashobj x = x"

text \<open>\<^verbatim>\<open>for _ in fs: ds = RTDC_Hierarchy(hparent=ds, apply_filter=False); row.append(ds)\<close>:
  returns the cells appended to the row.\<close>

fun hierarchy_children :: "'a list \<Rightarrow> nat \<Rightarrow> pstate \<Rightarrow> nat list \<times> pstate" where
  "hierarchy_children [] ds s = ([], s)"
| "hierarchy_children (f # fs) ds s =
     (let (c, s1) = alloc_dataset (RTDC_Hierarchy ds) s;
          (cs, s2) = hierarchy_children fs c s1
      in (c # cs, s2))"

text \<open>A new row for a slot: the raw dataset and one hierarchy child per
  filter.  Only the branch "only a slot was added/removed" calls
  \<^verbatim>\<open>sl.update_dataset(ds)\<close> on the raw dataset (\<open>update = True\<close>); the branch
  "everything changed" does not.\<close>

definition new_row :: "bool \<Rightarrow> ident \<Rightarrow> pstate \<Rightarrow> nat result" where
  "new_row update sl s =
     (case path_of s sl of
        None \<Rightarrow> Inl (InvalidReference, s)
      | Some p \<Rightarrow>
          (let (ds, s1) = alloc_dataset (new_dataset p sl) s
           in case (if update then Dataslot_update_dataset sl ds s1 else Some s1) of
                None \<Rightarrow> Inl (InvalidReference, s1)
              | Some s2 \<Rightarrow>
                  (let (cs, s3) = hierarchy_children (filters s2) ds s2
                   in Inr (alloc_row (ds # cs) s3))))"

text \<open>\<^verbatim>\<open>for row in self.matrix: if row[0].identifier == sl.identifier: break\<close>;
  \<^verbatim>\<open>None\<close> when the loop ends without \<^verbatim>\<open>break\<close>.\<close>

fun find_row :: "pstate \<Rightarrow> nat list \<Rightarrow> ident \<Rightarrow> error + nat option" where
  "find_row s [] sl = Inr None"
| "find_row s (r # rs) sl =
     (case get_row s r of
        None \<Rightarrow> Inl InvalidReference
      | Some row \<Rightarrow>
          (case row of
             [] \<Rightarrow> Inl IndexError
           | a # _ \<Rightarrow>
               (case get_ds s a of
                  None \<Rightarrow> Inl InvalidReference
                | Some d \<Rightarrow>
                    if ds_identifier d = Some sl then Inr (Some r) else find_row s rs sl)))"

text \<open>The branch "only a slot was added/removed": the rows of the new
  matrix, in slot order; \<open>old\<close> is \<^verbatim>\<open>self.matrix\<close>.\<close>

fun reuse_rows :: "ident list \<Rightarrow> nat list \<Rightarrow> pstate \<Rightarrow> nat list result" where
  "reuse_rows [] old s = Inr ([], s)"
| "reuse_rows (sl # sls) old s =
     (case find_row s old sl of
        Inl e \<Rightarrow> Inl (e, s)
      | Inr found \<Rightarrow>
          (case (case found of Some r \<Rightarrow> Inr (r, s) | None \<Rightarrow> new_row True sl s) of
             Inl e \<Rightarrow> Inl e
           | Inr (r, s1) \<Rightarrow>
               (case reuse_rows sls old s1 of
                  Inl e \<Rightarrow> Inl e
                | Inr (rs, s2) \<Rightarrow> Inr (r # rs, s2))))"

text \<open>\<^verbatim>\<open>for _ in self.filters[n_filt_then:]: ds = RTDC_Hierarchy(hparent=row[-1], ...); row.append(ds)\<close>
  on the row object at address r.\<close>

fun extend_row :: "'a list \<Rightarrow> nat \<Rightarrow> pstate \<Rightarrow> (error \<times> pstate) + pstate" where
  "extend_row [] r s = Inr s"
| "extend_row (f # fs) r s =
     (case get_row s r of
        None \<Rightarrow> Inl (InvalidReference, s)
      | Some row \<Rightarrow>
          if row = [] then Inl (IndexError, s)
          else
            (let (c, s1) = alloc_dataset (RTDC_Hierarchy (last row)) s
             in extend_row fs r (s1\<lparr>row_store := (row_store s1)[r := row @ [c]]\<rparr>)))"

text \<open>The branch "only a filter was added":
  \<^verbatim>\<open>for ii, sl in enumerate(self.slots): row = matrix[ii]; ...\<close>\<close>

fun extend_rows :: "nat list \<Rightarrow> 'a list \<Rightarrow> pstate \<Rightarrow> (error \<times> pstate) + pstate" where
  "extend_rows [] new s = Inr s"
| "extend_rows (ii # rest) new s =
     (if ii < length (matrix s)
      then (case extend_row new (matrix s ! ii) s of
              Inl e \<Rightarrow> Inl e
            | Inr s1 \<Rightarrow> extend_rows rest new s1)
      else Inl (IndexError, s))"

text \<open>The branch "everything changed".\<close>

fun rebuild_rows :: "ident list \<Rightarrow> pstate \<Rightarrow> nat list result" where
  "rebuild_rows [] s = Inr ([], s)"
| "rebuild_rows (sl # sls) s =
     (case new_row False sl s of
        Inl e \<Rightarrow> Inl e
      | Inr (r, s1) \<Rightarrow>
          (case rebuild_rows sls s1 of
             Inl e \<Rightarrow> Inl e
           | Inr (rs, s2) \<Rightarrow> Inr (r # rs, s2)))"

definition construct_matrix :: "pstate \<Rightarrow> unit result" where
  "construct_matrix s =
     (let matrix_filters' = filters s;
          matrix_slots' = slots s;
          matrix_hash' = hashobj (matrix_slots', matrix_filters');
          n_filt_then = length (matrix_filters s)
      in if matrix_hash s \<noteq> Some matrix_hash'
         then
           (case (if matrix_filters s = matrix_filters'
                  then reuse_rows (slots s) (matrix s) s
                  else if matrix_slots s = matrix_slots'
                          \<and> matrix_filters s = take n_filt_then matrix_filters'
                  then (case extend_rows [0 ..< length (slots s)] (drop n_filt_then (filters s)) s of
                          Inl e \<Rightarrow> Inl e
                        | Inr s1 \<Rightarrow> Inr (matrix s1, s1))
                  else rebuild_rows (slots s) s) of
              Inl e \<Rightarrow> Inl e
            | Inr (m, s1) \<Rightarrow>
                Inr ((), s1\<lparr>matrix := m, matrix_hash := Some matrix_hash',
                            matrix_slots := matrix_slots', matrix_filters := matrix_filters'\<rparr>))
         else Inr ((), s))"

subsection \<open>Reading datasets\<close>

text \<open>The body of the loop \<^verbatim>\<open>for ii in range(filt_index + 1)\<close> of
  \<^verbatim>\<open>get_dataset\<close>: the filter at position ii is pushed onto the cell
  \<^verbatim>\<open>row[ii]\<close>, or the cell's filtering is switched off.\<close>

definition set_filter :: "nat \<Rightarrow> nat list \<Rightarrow> (ident \<times> bool) list \<Rightarrow> pstate
    \<Rightarrow> (error \<times> pstate) + pstate" where
  "set_filter ii row fstates s =
     (if ii < length (filters s)
      then
        (let filt_id = filters s ! ii
         in case map_of fstates filt_id of
              None \<Rightarrow> Inl (KeyError, s)
            | Some enabled \<Rightarrow>
                if ii < length row
                then
                  (case (if enabled \<and> filt_id \<in> set (filters_used s)
                         then Filter_update_dataset filt_id (row ! ii) s
                         else disable_filters (row ! ii) s) of
                     None \<Rightarrow> Inl (InvalidReference, s)
                   | Some s1 \<Rightarrow> Inr s1)
                else Inl (IndexError, s))
      else Inl (IndexError, s))"

fun set_filters :: "nat list \<Rightarrow> nat list \<Rightarrow> (ident \<times> bool) list \<Rightarrow> pstate
    \<Rightarrow> (error \<times> pstate) + pstate" where
  "set_filters [] row fstates s = Inr s"
| "set_filters (ii # rest) row fstates s =
     (case set_filter ii row fstates s of
        Inl e \<Rightarrow> Inl e
      | Inr s1 \<Rightarrow> set_filters rest row fstates s1)"

definition get_dataset :: "int \<Rightarrow> int \<Rightarrow> bool \<Rightarrow> bool \<Rightarrow> pstate \<Rightarrow> (nat \<times> string option) result" where
  "get_dataset slot_index filt_index apply_filter ret_color s =
     (case construct_matrix s of
        Inl e \<Rightarrow> Inl e
      | Inr (u, s1) \<Rightarrow>
     (case py_get (matrix s1) slot_index of
        None \<Rightarrow> Inl (IndexError, s1)
      | Some r \<Rightarrow>
     (case get_row s1 r of
        None \<Rightarrow> Inl (InvalidReference, s1)
      | Some row \<Rightarrow>
     (case py_get (slots s1) slot_index of
        None \<Rightarrow> Inl (IndexError, s1)
      | Some slot \<Rightarrow>
     (case map_of (element_states s1) slot of
        None \<Rightarrow> Inl (KeyError, s1)
      | Some fstates \<Rightarrow>
     (case set_filters (py_range (filt_index + 1)) row fstates s1 of
        Inl e \<Rightarrow> Inl e
      | Inr s2 \<Rightarrow>
     (case py_get row filt_index of
        None \<Rightarrow> Inl (IndexError, s2)
      | Some dsend \<Rightarrow>
     (case Dataslot_update_dataset slot dsend s2 of
        None \<Rightarrow> Inl (InvalidReference, s2)
      | Some s3 \<Rightarrow>
     (case (if apply_filter then apply_filter_ds dsend s3 else Some s3) of
        None \<Rightarrow> Inl (InvalidReference, s3)
      | Some s4 \<Rightarrow>
          Inr ((dsend,
                if ret_color
                then map_option slot_color (map_of (Dataslot_instances s4) slot)
                else None), s4))))))))))"

text \<open>The loop of \<^verbatim>\<open>get_plot_datasets\<close> over the slot indices;
  \<^verbatim>\<open>slot.__getstate__()\<close> is the slot's identifier with its configuration.\<close>

fun plot_datasets_loop :: "nat list \<Rightarrow> ident \<Rightarrow> int \<Rightarrow> pstate
    \<Rightarrow> (nat list \<times> (ident \<times> dataslot) list) result" where
  "plot_datasets_loop [] plot_id filt_index s = Inr (([], []), s)"
| "plot_datasets_loop (slot_index # rest) plot_id filt_index s =
     (case py_get (slots s) (int slot_index) of
        None \<Rightarrow> Inl (IndexError, s)
      | Some slot_id \<Rightarrow>
     (case map_of (element_states s) slot_id of
        None \<Rightarrow> Inl (KeyError, s)
      | Some d \<Rightarrow>
     (case map_of d plot_id of
        None \<Rightarrow> Inl (KeyError, s)
      | Some enabled \<Rightarrow>
          if enabled \<and> slot_id \<in> set (slots_used s)
          then
            (case get_dataset (int slot_index) filt_index True False s of
               Inl e \<Rightarrow> Inl e
             | Inr ((ds, c), s1) \<Rightarrow>
            (case map_of (Dataslot_instances s1) slot_id of
               None \<Rightarrow> Inl (InvalidReference, s1)
             | Some st \<Rightarrow>
            (case plot_datasets_loop rest plot_id filt_index s1 of
               Inl e \<Rightarrow> Inl e
             | Inr ((datasets, states), s2) \<Rightarrow>
                 Inr ((ds # datasets, (slot_id, st) # states), s2))))
          else plot_datasets_loop rest plot_id filt_index s)))"

definition get_plot_datasets :: "ident \<Rightarrow> pstate \<Rightarrow> (nat list \<times> (ident \<times> dataslot) list) result" where
  "get_plot_datasets plot_id s =
     (let filt_index = int (num_filters s) - 1
      in plot_datasets_loop (py_range (int (length (slots s)))) plot_id filt_index s)"

subsection \<open>Restoring a serialized state\<close>

fun add_filters :: "(ident \<times> filtering) list \<Rightarrow> pstate \<Rightarrow> (error \<times> pstate) + pstate" where
  "add_filters [] s = Inr s"
| "add_filters ((i, c) # rest) s =
     (case add_filter (Some (State i c)) None s of
        Inl e \<Rightarrow> Inl e
      | Inr (filt_id, s1) \<Rightarrow> add_filters rest s1)"

fun add_plots :: "(ident \<times> plot_config) list \<Rightarrow> pstate \<Rightarrow> (error \<times> pstate) + pstate" where
  "add_plots [] s = Inr s"
| "add_plots ((i, c) # rest) s =
     (case add_plot (Some (State i c)) None s of
        Inl e \<Rightarrow> Inl e
      | Inr (plot_id, s1) \<Rightarrow> add_plots rest s1)"

fun add_slots :: "(string \<Rightarrow> string list) \<Rightarrow> (ident \<times> dataslot) list \<Rightarrow> pstate
    \<Rightarrow> (error \<times> pstate) + pstate" where
  "add_slots get_rtdc_features [] s = Inr s"
| "add_slots get_rtdc_features ((i, c) # rest) s =
     (case add_slot get_rtdc_features (Some (State i c)) None None s of
        Inl e \<Rightarrow> Inl e
      | Inr (slot_id, s1) \<Rightarrow> add_slots get_rtdc_features rest s1)"

text \<open>\<^verbatim>\<open>self._old_state = state\<close>: every entry of the kept dictionary is
  still an object of its own.\<close>

definition keep_state :: "state_dict \<Rightarrow> old_state_dict" where
  "keep_state state =
     \<lparr>old_filters = st_filters state, old_plots = st_plots state, old_slots = st_slots state,
      old_filters_used = Some (st_filters_used state),
      old_slots_used = Some (st_slots_used state),
      old_elements = Some (st_elements state)\<rparr>"

definition setstate :: "(string \<Rightarrow> string list) \<Rightarrow> state_dict \<Rightarrow> pstate \<Rightarrow> unit result" where
  "setstate get_rtdc_features state s =
     (if (case old_state_value s of None \<Rightarrow> False | Some old \<Rightarrow> state_eq old state)
      then Inr ((), s)
      else
        (let s0 = reset (s\<lparr>old_state := Some (keep_state state)\<rparr>)
         in case add_filters (st_filters state) s0 of
              Inl e \<Rightarrow> Inl e
            | Inr s1 \<Rightarrow>
        (let s2 = s1\<lparr>filters_used := st_filters_used state,
                     old_state := map_option (\<lambda>c. c\<lparr>old_filters_used := None\<rparr>) (old_state s1)\<rparr>
         in case add_plots (st_plots state) s2 of
              Inl e \<Rightarrow> Inl e
            | Inr s3 \<Rightarrow>
           (case add_slots get_rtdc_features (st_slots state) s3 of
              Inl e \<Rightarrow> Inl e
            | Inr s4 \<Rightarrow>
                Inr ((), s4\<lparr>slots_used := st_slots_used state,
                            element_states := st_elements state,
                            old_state := map_option
                              (\<lambda>c. c\<lparr>old_slots_used := None, old_elements := None\<rparr>)
                              (old_state s4)\<rparr>)))))"

subsection \<open>Notions used in the properties\<close>

text \<open>Two states that agree on every attribute of the pipeline and on the
  instance dictionaries; they may differ in the rows and datasets stored.\<close>

definition stores_only :: "pstate \<Rightarrow> pstate \<Rightarrow> bool" where
  "stores_only s s' =
     (filters s' = filters s \<and> filters_used s' = filters_used s \<and> plots s' = plots s
      \<and> slots s' = slots s \<and> slots_used s' = slots_used s
      \<and> element_states s' = element_states s \<and> matrix s' = matrix s
      \<and> matrix_hash s' = matrix_hash s \<and> matrix_slots s' = matrix_slots s
      \<and> matrix_filters s' = matrix_filters s \<and> old_state s' = old_state s
      \<and> Filter_instances s' = Filter_instances s \<and> Plot_instances s' = Plot_instances s
      \<and> Dataslot_instances s' = Dataslot_instances s)"

text \<open>The state a call leaves behind, whether it returned or raised.\<close>

definition after :: "'a result \<Rightarrow> pstate" where
  "after r = (case r of Inl (e, s) \<Rightarrow> s | Inr (v, s) \<Rightarrow> s)"

text \<open>Example data: two measurements with the features A and B, one with
  the feature A only; a filter with a box constraint on A.\<close>

definition example_features :: "string \<Rightarrow> string list" where
  "example_features p = (if p = ''subset.rtdc'' then [''A''] else [''A'', ''B''])"

definition slot_one :: dataslot where
  "slot_one = \<lparr>slot_path = ''one.rtdc'', slot_color = ''red'',
               slot_config = [(''emodulus medium'', ''water'')]\<rparr>"

definition slot_two :: dataslot where
  "slot_two = \<lparr>slot_path = ''two.rtdc'', slot_color = ''green'', slot_config = []\<rparr>"

definition filter_one :: filtering where
  "filter_one = \<lparr>enable_filters = True, box_limits = [(''A'', 0, 10)]\<rparr>"

definition filter_and_slot :: pstate where
  "filter_and_slot =
     after (add_slot example_features (Some (State ''S1'' slot_one)) None None
       (after (add_filter (Some (State ''F1'' filter_one)) None Pipeline)))"

definition slot_subset :: dataslot where
  "slot_subset = \<lparr>slot_path = ''subset.rtdc'', slot_color = ''blue'', slot_config = []\<rparr>"

definition one_slot :: pstate where
  "one_slot = after (add_slot example_features (Some (State ''S1'' slot_one)) None None Pipeline)"

definition plot_then_slot :: pstate where
  "plot_then_slot =
     after (add_slot example_features (Some (State ''S1'' slot_one)) None None
       (after (add_plot (Some (State ''P1'' [])) None Pipeline)))"

definition two_filters :: pstate where
  "two_filters =
     after (add_filter (Some (State ''F2'' default_filtering)) None
       (after (add_filter (Some (State ''F1'' filter_one)) None Pipeline)))"

definition built_incrementally :: pstate where
  "built_incrementally =
     after (construct_matrix
       (after (add_slot example_features (Some (State ''S1'' slot_one)) None None
         (after (construct_matrix two_filters)))))"

definition built_at_once :: pstate where
  "built_at_once =
     after (construct_matrix
       (after (add_slot example_features (Some (State ''S1'' slot_one)) None None two_filters)))"

text \<open>What a dataset shows depends on its hierarchy parents: the chain of
  datasets from a cell up to the raw dataset of its row.\<close>

fun view_upto :: "nat \<Rightarrow> dataset list \<Rightarrow> nat \<Rightarrow> dataset list" where
  "view_upto 0 st a = []"
| "view_upto (Suc n) st a =
     (if a < length st
      then st ! a # (case ds_origin (st ! a) of FromFile p \<Rightarrow> [] | HParent b \<Rightarrow> view_upto n st b)
      else [])"

definition dataset_view :: "pstate \<Rightarrow> nat \<Rightarrow> dataset list" where
  "dataset_view s a = view_upto (length (dataset_store s)) (dataset_store s) a"

text \<open>The filtering configuration stage ii of \<^verbatim>\<open>get_dataset\<close> leaves on
  its cell, given the one the cell had: the configuration of the filter at
  position ii when the slot enables that filter and the filter is used,
  else the cell's own with filtering switched off.\<close>

definition stage_filtering :: "pstate \<Rightarrow> (ident \<times> bool) list \<Rightarrow> nat \<Rightarrow> filtering \<Rightarrow> filtering" where
  "stage_filtering s fstates ii old =
     (if map_of fstates (filters s ! ii) = Some True \<and> filters s ! ii \<in> set (filters_used s)
      then (case map_of (Filter_instances s) (filters s ! ii) of Some c \<Rightarrow> c | None \<Rightarrow> old)
      else old\<lparr>enable_filters := False\<rparr>)"

text \<open>Two slots with the same features, one filter; only the first slot
  enables the filter.\<close>

definition two_slots_one_filter :: pstate where
  "two_slots_one_filter =
     (after (add_filter (Some (State ''F1'' filter_one)) None
        (after (add_slot example_features (Some (State ''S2'' slot_two)) None None
           (after (add_slot example_features (Some (State ''S1'' slot_one)) None None Pipeline))))))
     \<lparr>element_states := [(''S1'', [(''F1'', True)]), (''S2'', [(''F1'', False)])]\<rparr>"

text \<open>\<^verbatim>\<open>self.matrix[slot_index][filt_index]\<close>\<close>

definition matrix_cell :: "pstate \<Rightarrow> int \<Rightarrow> int \<Rightarrow> nat option" where
  "matrix_cell s slot_index filt_index =
     (case py_get (matrix s) slot_index of
        None \<Rightarrow> None
      | Some r \<Rightarrow> (case get_row s r of None \<Rightarrow> None | Some row \<Rightarrow> py_get row filt_index))"

text \<open>The slot is enabled for the plot and marked as used.\<close>

definition plot_uses_slot :: "pstate \<Rightarrow> ident \<Rightarrow> ident \<Rightarrow> bool" where
  "plot_uses_slot s plot_id slot_id =
     ((case map_of (element_states s) slot_id of
         None \<Rightarrow> False
       | Some d \<Rightarrow> map_of d plot_id = Some True)
      \<and> slot_id \<in> set (slots_used s))"

text \<open>The event mask of the dataset at an address has been computed.\<close>

definition mask_computed :: "pstate \<Rightarrow> nat \<Rightarrow> bool" where
  "mask_computed s a = (a < length (dataset_store s) \<and> filter_mask (dataset_store s ! a) \<noteq> None)"

text \<open>Two slots, one filter and one plot; the plot shows the first slot only.\<close>

definition two_slots_one_plot :: pstate where
  "two_slots_one_plot =
     (after (add_plot (Some (State ''P1'' [])) None two_slots_one_filter))
     \<lparr>element_states := [(''S1'', [(''F1'', True), (''P1'', True)]),
                         (''S2'', [(''F1'', False), (''P1'', False)])]\<rparr>"

text \<open>A serialized state with one filter, one plot and one slot.\<close>

definition example_state :: state_dict where
  "example_state =
     \<lparr>st_elements = [(''S1'', [(''F1'', True), (''P1'', True)])],
      st_filters = [(''F1'', filter_one)],
      st_filters_used = [''F1''],
      st_plots = [(''P1'', [])],
      st_slots = [(''S1'', slot_one)],
      st_slots_used = [''S1'']\<rparr>"

text \<open>The row object at address r has been extended by k new hierarchy
  children: its old cells are still its first cells, and every further cell
  is a dataset created since, whose parent is the cell before it.\<close>

definition row_extended :: "pstate \<Rightarrow> pstate \<Rightarrow> nat \<Rightarrow> nat \<Rightarrow> bool" where
  "row_extended s s' k r =
     (let old = row_store s ! r; new = row_store s' ! r
      in take (length old) new = old \<and> length new = length old + k
         \<and> (\<forall>j \<in> {length old ..< length new}.
               length (dataset_store s) \<le> new ! j
               \<and> new ! j < length (dataset_store s')
               \<and> ds_origin (dataset_store s' ! (new ! j)) = HParent (new ! (j - 1))))"

text \<open>The matrix still lists the same row objects, every dataset that
  existed is unchanged, and every row of the matrix has been extended by k
  cells.\<close>

definition filters_appended :: "pstate \<Rightarrow> pstate \<Rightarrow> nat \<Rightarrow> bool" where
  "filters_appended s s' k =
     (matrix s' = matrix s
      \<and> take (length (dataset_store s)) (dataset_store s') = dataset_store s
      \<and> (\<forall>r \<in> set (matrix s). row_extended s s' k r))"

text \<open>The same slot added twice, with \<^verbatim>\<open>construct_matrix\<close> after each call,
  and then one filter.\<close>

definition slot_twice_then_filter :: pstate where
  "slot_twice_then_filter =
     after (add_filter (Some (State ''F1'' filter_one)) None
       (after (construct_matrix
         (after (add_slot example_features (Some (Instance ''S1'')) None None
           (after (construct_matrix
             (after (add_slot example_features (Some (State ''S1'' slot_one)) None None
                Pipeline)))))))))"

text \<open>Two slots and one filter with the matrix constructed, then a second
  filter appended.\<close>

definition second_filter_appended :: pstate where
  "second_filter_appended =
     after (add_filter (Some (State ''F2'' default_filtering)) None
       (after (construct_matrix two_slots_one_filter)))"

text \<open>The row \<^verbatim>\<open>self.matrix[i]\<close>, for an index in range.\<close>

definition matrix_row :: "pstate \<Rightarrow> nat \<Rightarrow> nat list" where
  "matrix_row s i = row_store s ! (matrix s ! i)"

text \<open>What stage ii of \<^verbatim>\<open>get_dataset\<close> leaves as the filtering
  configuration of its cell, whatever the cell had: the configuration of the
  filter at position ii when the slot enables that filter and the filter is
  used, else one with filtering switched off.\<close>

definition stage_set :: "pstate \<Rightarrow> (ident \<times> bool) list \<Rightarrow> nat \<Rightarrow> filtering \<Rightarrow> bool" where
  "stage_set s fstates ii cfg =
     (if map_of fstates (filters s ! ii) = Some True \<and> filters s ! ii \<in> set (filters_used s)
      then map_of (Filter_instances s) (filters s ! ii) = Some cfg
      else enable_filters cfg = False)"

text \<open>In the state s', every filter of the pipeline s is set on its cell of
  the row of the slot at index i: the cell \<^verbatim>\<open>matrix[i][ii]\<close> carries what
  stage ii leaves.\<close>

definition chain_filtered :: "pstate \<Rightarrow> pstate \<Rightarrow> nat \<Rightarrow> bool" where
  "chain_filtered s s' i =
     (case map_of (element_states s) (slots s ! i) of
        None \<Rightarrow> False
      | Some fstates \<Rightarrow>
          list_all
            (\<lambda>ii. ii < length (matrix_row s' i)
               \<and> stage_set s fstates ii
                   (cfg_filtering (dataset_store s' ! (matrix_row s' i ! ii))))
            [0 ..< num_filters s])"

text \<open>The event mask of the dataset at an address is the one of its
  filtering configuration as it stands.\<close>

definition mask_current :: "pstate \<Rightarrow> nat \<Rightarrow> bool" where
  "mask_current s a =
     (filter_mask (dataset_store s ! a) = Some (cfg_filtering (dataset_store s ! a)))"

text \<open>The slot has an element state for the plot.\<close>

definition has_plot_state :: "pstate \<Rightarrow> ident \<Rightarrow> ident \<Rightarrow> bool" where
  "has_plot_state s plot_id slot_id =
     (case map_of (element_states s) slot_id of
        None \<Rightarrow> False
      | Some d \<Rightarrow> map_of d plot_id \<noteq> None)"

text \<open>The number of hierarchy parents above the dataset at an address.\<close>

definition chain_depth :: "pstate \<Rightarrow> nat \<Rightarrow> nat" where
  "chain_depth s a = length (dataset_view s a) - 1"

text \<open>Two slots, two filters and one plot that shows both slots; the first
  slot enables the first filter only, the second slot the second only.\<close>

definition filter_two :: filtering where
  "filter_two = \<lparr>enable_filters = True, box_limits = [(''B'', 1, 2)]\<rparr>"

definition two_slots_two_filters :: pstate where
  "two_slots_two_filters =
     (after (add_plot (Some (State ''P1'' [])) None
        (after (add_filter (Some (State ''F2'' filter_two)) None two_slots_one_filter))))
     \<lparr>element_states := [(''S1'', [(''F1'', True), (''F2'', False), (''P1'', True)]),
                         (''S2'', [(''F1'', False), (''F2'', True), (''P1'', True)])]\<rparr>"

text \<open>The pipeline after \<open>example_state\<close> has been applied to a new one,
  and after a filter has been added to it since.\<close>

definition state_applied :: pstate where
  "state_applied = after (setstate example_features example_state Pipeline)"

definition filter_added :: pstate where
  "filter_added = after (add_filter None None state_applied)"

text \<open>\<open>example_state\<close> with the added filter in its used filters and its
  element states, but not in its filters.\<close>

definition example_state_grown :: state_dict where
  "example_state_grown =
     example_state
       \<lparr>st_elements := [(''S1'', [(''F1'', True), (''P1'', True), (''Filter_###'', False)])],
        st_filters_used := [''F1'', ''Filter_###'']\<rparr>"

text \<open>A serialized state whose second slot lacks a feature of the first and
  that marks no filter and no slot as used.\<close>

definition mixed_state :: state_dict where
  "mixed_state =
     \<lparr>st_elements = [],
      st_filters = [(''F1'', filter_one)],
      st_filters_used = [],
      st_plots = [(''P1'', [])],
      st_slots = [(''S1'', slot_one), (''S2'', slot_subset)],
      st_slots_used = []\<rparr>"

section \<open>Properties\<close>

subsection \<open>What the matrix loops leave untouched\<close>

lemma stores_only_refl: "stores_only s s"
  by (simp add: stores_only_def)

lemma stores_only_trans: "stores_only s s1 \<Longrightarrow> stores_only s1 s2 \<Longrightarrow> stores_only s s2"
  by (simp add: stores_only_def)

lemma stores_only_row: "stores_only s (s\<lparr>row_store := rs\<rparr>)"
  by (simp add: stores_only_def)

lemma stores_only_ds: "stores_only s (s\<lparr>dataset_store := ds\<rparr>)"
  by (simp add: stores_only_def)

lemma alloc_dataset_stores: "alloc_dataset d s = (a, s') \<Longrightarrow> stores_only s s'"
  by (auto simp: alloc_dataset_def stores_only_ds)

lemma alloc_row_stores: "alloc_row row s = (a, s') \<Longrightarrow> stores_only s s'"
  by (auto simp: alloc_row_def stores_only_row)

lemma hierarchy_children_stores: "hierarchy_children fs ds s = (cs, s') \<Longrightarrow> stores_only s s'"
proof (induction fs arbitrary: ds s cs s')
  case Nil
  then show ?case by (simp add: stores_only_refl)
next
  case (Cons f fs)
  obtain c s1 where a: "alloc_dataset (RTDC_Hierarchy ds) s = (c, s1)" by force
  obtain cs' s2 where h: "hierarchy_children fs c s1 = (cs', s2)" by force
  from Cons.prems a h have "s' = s2" by simp
  with Cons.IH [OF h] alloc_dataset_stores [OF a] show ?case
    by (blast intro: stores_only_trans)
qed

lemma put_ds_stores: "stores_only s (put_ds a d s)"
  by (simp add: put_ds_def stores_only_ds)

lemma Dataslot_update_dataset_stores: "Dataslot_update_dataset sl a s = Some s' \<Longrightarrow> stores_only s s'"
  by (auto simp: Dataslot_update_dataset_def put_ds_stores split: option.splits)

lemma Filter_update_dataset_stores: "Filter_update_dataset f a s = Some s' \<Longrightarrow> stores_only s s'"
  by (auto simp: Filter_update_dataset_def put_ds_stores split: option.splits)

lemma disable_filters_stores: "disable_filters a s = Some s' \<Longrightarrow> stores_only s s'"
  by (auto simp: disable_filters_def put_ds_stores split: option.splits)

lemma apply_filter_ds_stores: "apply_filter_ds a s = Some s' \<Longrightarrow> stores_only s s'"
  by (auto simp: apply_filter_ds_def put_ds_stores split: option.splits)

lemma new_row_stores: "new_row u sl s = Inr (r, s') \<Longrightarrow> stores_only s s'"
proof -
  assume a: "new_row u sl s = Inr (r, s')"
  then obtain p where p: "path_of s sl = Some p"
    by (auto simp: new_row_def split: option.splits)
  obtain ds s1 where d: "alloc_dataset (new_dataset p sl) s = (ds, s1)" by force
  from a p d obtain s2 where u: "(if u then Dataslot_update_dataset sl ds s1 else Some s1) = Some s2"
    by (auto simp: new_row_def split: option.splits)
  obtain cs s3 where h: "hierarchy_children (filters s2) ds s2 = (cs, s3)" by force
  from a p d u h have r: "alloc_row (ds # cs) s3 = (r, s')"
    by (simp add: new_row_def)
  from u have "stores_only s1 s2"
    by (auto simp: stores_only_refl Dataslot_update_dataset_stores split: if_splits)
  with alloc_dataset_stores [OF d] hierarchy_children_stores [OF h] alloc_row_stores [OF r]
  show ?thesis by (blast intro: stores_only_trans)
qed

lemma reuse_rows_stores: "reuse_rows sls old s = Inr (m, s') \<Longrightarrow> stores_only s s'"
proof (induction sls arbitrary: s m s')
  case Nil
  then show ?case by (simp add: stores_only_refl)
next
  case (Cons sl sls)
  from Cons.prems obtain found where f: "find_row s old sl = Inr found"
    by (auto split: sum.splits)
  from Cons.prems f obtain r s1 where n: "(case found of Some r \<Rightarrow> Inr (r, s) | None \<Rightarrow> new_row True sl s) = Inr (r, s1)"
    by (auto split: sum.splits)
  from Cons.prems f n obtain rs where rr: "reuse_rows sls old s1 = Inr (rs, s')"
    by (auto split: sum.splits)
  from n have "stores_only s s1"
    by (auto simp: stores_only_refl new_row_stores split: option.splits)
  with Cons.IH [OF rr] show ?case by (blast intro: stores_only_trans)
qed

lemma rebuild_rows_stores: "rebuild_rows sls s = Inr (m, s') \<Longrightarrow> stores_only s s'"
proof (induction sls arbitrary: s m s')
  case Nil
  then show ?case by (simp add: stores_only_refl)
next
  case (Cons sl sls)
  from Cons.prems obtain r s1 where n: "new_row False sl s = Inr (r, s1)"
    by (auto split: sum.splits)
  from Cons.prems n obtain rs where rr: "rebuild_rows sls s1 = Inr (rs, s')"
    by (auto split: sum.splits)
  from new_row_stores [OF n] Cons.IH [OF rr] show ?case by (blast intro: stores_only_trans)
qed

lemma extend_row_stores: "extend_row fs r s = Inr s' \<Longrightarrow> stores_only s s'"
proof (induction fs arbitrary: s s')
  case Nil
  then show ?case by (simp add: stores_only_refl)
next
  case (Cons f fs)
  from Cons.prems obtain row where g: "get_row s r = Some row" and ne: "row \<noteq> []"
    by (auto split: option.splits if_splits)
  obtain c s1 where a: "alloc_dataset (RTDC_Hierarchy (last row)) s = (c, s1)" by force
  from Cons.prems g ne a have e: "extend_row fs r (s1\<lparr>row_store := (row_store s1)[r := row @ [c]]\<rparr>) = Inr s'"
    by simp
  from alloc_dataset_stores [OF a] stores_only_row Cons.IH [OF e] show ?case
    by (blast intro: stores_only_trans)
qed

lemma extend_rows_stores: "extend_rows idxs fs s = Inr s' \<Longrightarrow> stores_only s s'"
proof (induction idxs arbitrary: s s')
  case Nil
  then show ?case by (simp add: stores_only_refl)
next
  case (Cons ii idxs)
  from Cons.prems obtain s1 where e: "extend_row fs (matrix s ! ii) s = Inr s1"
    and r: "extend_rows idxs fs s1 = Inr s'"
    by (auto split: sum.splits if_splits)
  from extend_row_stores [OF e] Cons.IH [OF r] show ?case by (blast intro: stores_only_trans)
qed

lemma construct_matrix_cases:
  assumes "construct_matrix s = Inr (u, s')"
  shows "(matrix_hash s = Some (hashobj (slots s, filters s)) \<and> s' = s)
       \<or> (matrix_hash s \<noteq> Some (hashobj (slots s, filters s)) \<and>
          (\<exists>s1 m. stores_only s s1 \<and>
             s' = s1\<lparr>matrix := m, matrix_hash := Some (hashobj (slots s, filters s)),
                     matrix_slots := slots s, matrix_filters := filters s\<rparr>))"
proof (cases "matrix_hash s = Some (hashobj (slots s, filters s))")
  case True
  with assms show ?thesis by (simp add: construct_matrix_def)
next
  case False
  from assms False obtain m s1 where
    b: "(if matrix_filters s = filters s then reuse_rows (slots s) (matrix s) s
         else if matrix_slots s = slots s \<and> matrix_filters s = take (length (matrix_filters s)) (filters s)
         then (case extend_rows [0 ..< length (slots s)] (drop (length (matrix_filters s)) (filters s)) s of
                 Inl e \<Rightarrow> Inl e | Inr s1 \<Rightarrow> Inr (matrix s1, s1))
         else rebuild_rows (slots s) s) = Inr (m, s1)"
    and s': "s' = s1\<lparr>matrix := m, matrix_hash := Some (hashobj (slots s, filters s)),
                     matrix_slots := slots s, matrix_filters := filters s\<rparr>"
    by (auto simp: construct_matrix_def Let_def split: sum.splits)
  from b have "stores_only s s1"
    by (auto simp: reuse_rows_stores rebuild_rows_stores extend_rows_stores split: if_splits sum.splits)
  with False s' show ?thesis by blast
qed

subsection \<open>The fingerprint\<close>

text \<open>
  C3: \<^verbatim>\<open>construct_matrix\<close> compares the cached fingerprint with the one of
  the current ordered slot and filter identifiers and does nothing when they
  agree.  After a call that returned, the cached fingerprint is the current
  one, so a second call returns the very same state (no row or dataset is
  created or changed: every cell keeps its identity), and so does a call
  after any change of the element states, of the filters' parameters or of
  the slots' configuration.
\<close>

theorem construct_matrix_rebuilds_only_on_new_fingerprint:
  "(matrix_hash s = Some (hashobj (slots s, filters s)) \<longrightarrow> construct_matrix s = Inr ((), s))
   \<and> (construct_matrix s = Inr ((), s') \<longrightarrow>
        matrix_hash s' = Some (hashobj (slots s, filters s))
        \<and> construct_matrix s' = Inr ((), s')
        \<and> construct_matrix
             (s'\<lparr>element_states := es, Filter_instances := fi, Dataslot_instances := di\<rparr>)
            = Inr ((), s'\<lparr>element_states := es, Filter_instances := fi, Dataslot_instances := di\<rparr>))"
proof (intro conjI impI)
  assume "matrix_hash s = Some (hashobj (slots s, filters s))"
  then show "construct_matrix s = Inr ((), s)"
    by (simp add: construct_matrix_def)
next
  assume c: "construct_matrix s = Inr ((), s')"
  from construct_matrix_cases [OF c]
  have h: "matrix_hash s' = Some (hashobj (slots s', filters s'))"
    and e: "slots s' = slots s" "filters s' = filters s"
    by (auto simp: stores_only_def)
  from h e show "matrix_hash s' = Some (hashobj (slots s, filters s))" by simp
  from h show "construct_matrix s' = Inr ((), s')"
    by (simp add: construct_matrix_def)
  from h show "construct_matrix
      (s'\<lparr>element_states := es, Filter_instances := fi, Dataslot_instances := di\<rparr>)
     = Inr ((), s'\<lparr>element_states := es, Filter_instances := fi, Dataslot_instances := di\<rparr>)"
    by (simp add: construct_matrix_def)
qed

theorem construct_matrix_rebuilds_only_on_new_fingerprint_witness:
  "construct_matrix filter_and_slot = Inr ((), after (construct_matrix filter_and_slot))
   \<and> matrix_hash (after (construct_matrix filter_and_slot)) = Some ([''S1''], [''F1''])
   \<and> construct_matrix (after (construct_matrix filter_and_slot))
       = Inr ((), after (construct_matrix filter_and_slot))
   \<and> construct_matrix
        ((after (construct_matrix filter_and_slot))
           \<lparr>element_states := [(''S1'', [(''F1'', True)])],
            Filter_instances := [(''F1'', default_filtering)],
            Dataslot_instances := [(''S1'', slot_two)]\<rparr>)
       = Inr ((), (after (construct_matrix filter_and_slot))
           \<lparr>element_states := [(''S1'', [(''F1'', True)])],
            Filter_instances := [(''F1'', default_filtering)],
            Dataslot_instances := [(''S1'', slot_two)]\<rparr>)"
proof -
  have h: "construct_matrix filter_and_slot = Inr ((), after (construct_matrix filter_and_slot))"
    by code_simp
  have e: "hashobj (slots filter_and_slot, filters filter_and_slot) = ([''S1''], [''F1''])"
    by code_simp
  from h e construct_matrix_rebuilds_only_on_new_fingerprint
    [where s = filter_and_slot and s' = "after (construct_matrix filter_and_slot)"
       and es = "[(''S1'', [(''F1'', True)])]" and fi = "[(''F1'', default_filtering)]"
       and di = "[(''S1'', slot_two)]"]
  show ?thesis by simp
qed

subsection \<open>Adding and removing slots\<close>

text \<open>
  C5: \<^verbatim>\<open>add_slot\<close> compares the features only after it has inserted the
  slot, initialised its element states and marked it as used.  Adding a slot
  with the features A to a pipeline whose only slot has the features A and B
  raises the ValueError (the spec's IncompatibleSourceError), and the slot
  list, the used slots and the element states have all grown.  With index 0
  the new slot is itself the first slot, and the call returns.
\<close>

theorem add_slot_raises_after_inserting:
  "(case add_slot example_features (Some (State ''S2'' slot_subset)) None None one_slot of
      Inl (e, s') \<Rightarrow>
        e = ValueError
        \<and> slots one_slot = [''S1''] \<and> slots s' = [''S1'', ''S2'']
        \<and> slots_used one_slot = [''S1''] \<and> slots_used s' = [''S1'', ''S2'']
        \<and> element_states one_slot = [(''S1'', [])]
        \<and> element_states s' = [(''S1'', []), (''S2'', [])]
    | Inr r \<Rightarrow> False)
   \<and> (case add_slot example_features (Some (State ''S2'' slot_subset)) None (Some 0) one_slot of
      Inl e \<Rightarrow> False
    | Inr (i, s') \<Rightarrow> i = ''S2'' \<and> slots s' = [''S2'', ''S1''])"
  by code_simp

text \<open>
  C6: \<^verbatim>\<open>add_slot\<close> initialises the new slot's element states for the
  filters only.  After \<^verbatim>\<open>add_plot\<close> and then \<^verbatim>\<open>add_slot\<close> the slot has no entry
  for the plot and \<^verbatim>\<open>get_plot_datasets\<close> raises KeyError; in the other order
  \<^verbatim>\<open>add_plot\<close> creates the entry.
\<close>

theorem add_slot_skips_plots:
  "plots plot_then_slot = [''P1''] \<and> slots plot_then_slot = [''S1'']
   \<and> map_of (element_states plot_then_slot) ''S1'' = Some []
   \<and> get_plot_datasets ''P1'' plot_then_slot = Inl (KeyError, plot_then_slot)
   \<and> element_states (after (add_plot (Some (State ''P1'' [])) None one_slot))
       = [(''S1'', [(''P1'', False)])]"
  by code_simp

text \<open>
  C7: \<^verbatim>\<open>remove_slot\<close> looks the identifier up among the filters.  For a
  slot of the pipeline it raises ValueError and removes nothing; given the
  identifier of a filter it removes that filter and raises AttributeError.
\<close>

theorem remove_slot_searches_filters:
  "slots one_slot = [''S1''] \<and> slots_used one_slot = [''S1'']
   \<and> remove_slot ''S1'' one_slot = Inl (ValueError, one_slot)
   \<and> slots filter_and_slot = [''S1''] \<and> filters filter_and_slot = [''F1'']
   \<and> remove_slot ''S1'' filter_and_slot = Inl (ValueError, filter_and_slot)
   \<and> (case remove_slot ''F1'' filter_and_slot of
         Inl (e, s') \<Rightarrow> e = AttributeError \<and> filters s' = [] \<and> slots s' = [''S1'']
       | Inr r \<Rightarrow> False)"
  by code_simp

subsection \<open>Incremental and full rebuild\<close>

text \<open>
  C1: the same two filters and the same slot, once with \<^verbatim>\<open>construct_matrix\<close>
  called before the slot is added (the slot's row is then built by the
  branch "only a slot was added/removed"), once with a single call at the end
  (the branch "everything changed").  The first branch writes the slot's
  configuration to the raw dataset, the second does not: the view that
  \<^verbatim>\<open>get_dataset(0, 1)\<close> returns has a parent with the slot's configuration in
  the first pipeline and one without it in the second.
\<close>

theorem incremental_and_full_rebuild_differ:
  "slots built_incrementally = slots built_at_once
   \<and> filters built_incrementally = filters built_at_once
   \<and> element_states built_incrementally = element_states built_at_once
   \<and> Dataslot_instances built_incrementally = Dataslot_instances built_at_once
   \<and> (case (get_dataset 0 1 True False built_incrementally,
             get_dataset 0 1 True False built_at_once) of
         (Inr ((a, c), s1), Inr ((b, c'), s2)) \<Rightarrow>
            map cfg_slot (dataset_view s1 a)
              = [[(''emodulus medium'', ''water'')], [(''emodulus medium'', ''water'')]]
            \<and> map cfg_slot (dataset_view s2 b) = [[(''emodulus medium'', ''water'')], []]
       | _ \<Rightarrow> False)"
  by code_simp

subsection \<open>The filter stages of get_dataset\<close>

lemma stage_filtering_stores: "stores_only s s1 \<Longrightarrow> stage_filtering s1 = stage_filtering s"
  by (intro ext) (simp add: stage_filtering_def stores_only_def)

lemma set_filter_step:
  assumes "set_filter ii row fstates s = Inr s1"
  shows "ii < length (filters s) \<and> ii < length row \<and> row ! ii < length (dataset_store s)
    \<and> (\<exists>enabled. map_of fstates (filters s ! ii) = Some enabled)
    \<and> stores_only s s1 \<and> row_store s1 = row_store s
    \<and> dataset_store s1 = (dataset_store s)[row ! ii :=
         (dataset_store s ! (row ! ii))\<lparr>cfg_filtering :=
            stage_filtering s fstates ii (cfg_filtering (dataset_store s ! (row ! ii)))\<rparr>]"
  using assms
  by (auto simp: set_filter_def Let_def stage_filtering_def Filter_update_dataset_def
      disable_filters_def get_ds_def put_ds_def stores_only_def
      split: option.splits if_splits)

lemma set_filters_effect:
  assumes "set_filters idxs row fstates s = Inr s'"
  shows "stores_only s s' \<and> row_store s' = row_store s
    \<and> length (dataset_store s') = length (dataset_store s)
    \<and> map cfg_filtering (dataset_store s')
       = foldl (\<lambda>cs ii. cs[row ! ii := stage_filtering s fstates ii (cs ! (row ! ii))])
           (map cfg_filtering (dataset_store s)) idxs
    \<and> (\<forall>ii \<in> set idxs. ii < length (filters s) \<and> ii < length row
          \<and> row ! ii < length (dataset_store s)
          \<and> (\<exists>enabled. map_of fstates (filters s ! ii) = Some enabled))"
  using assms
proof (induction idxs arbitrary: s)
  case Nil
  then show ?case by (simp add: stores_only_refl)
next
  case (Cons ii idxs)
  from Cons.prems obtain s1 where st: "set_filter ii row fstates s = Inr s1"
    and r: "set_filters idxs row fstates s1 = Inr s'"
    by (auto split: sum.splits)
  note a = set_filter_step [OF st]
  note b = Cons.IH [OF r]
  from a have so: "stores_only s s1" by blast
  have sf: "stage_filtering s1 = stage_filtering s" by (rule stage_filtering_stores [OF so])
  from a have m1: "map cfg_filtering (dataset_store s1)
      = (map cfg_filtering (dataset_store s))[row ! ii :=
          stage_filtering s fstates ii (map cfg_filtering (dataset_store s) ! (row ! ii))]"
    by (simp add: map_update)
  from so have f: "filters s1 = filters s" by (simp add: stores_only_def)
  show ?case
  proof (intro conjI)
    from so b show "stores_only s s'" by (blast intro: stores_only_trans)
    from a b show "row_store s' = row_store s" by simp
    from a b show "length (dataset_store s') = length (dataset_store s)" by simp
    from b m1 sf show "map cfg_filtering (dataset_store s')
       = foldl (\<lambda>cs ii. cs[row ! ii := stage_filtering s fstates ii (cs ! (row ! ii))])
           (map cfg_filtering (dataset_store s)) (ii # idxs)"
      by simp
    from a b f show "\<forall>ii \<in> set (ii # idxs). ii < length (filters s) \<and> ii < length row
          \<and> row ! ii < length (dataset_store s)
          \<and> (\<exists>enabled. map_of fstates (filters s ! ii) = Some enabled)"
      by simp
  qed
qed

lemma map_update_same: "(map f xs)[a := f (xs ! a)] = map f xs"
  by (cases "a < length xs") (auto simp: list_eq_iff_nth_eq nth_list_update)

lemma Dataslot_update_dataset_filtering:
  "Dataslot_update_dataset sl a s = Some s' \<Longrightarrow>
     map cfg_filtering (dataset_store s') = map cfg_filtering (dataset_store s)
     \<and> row_store s' = row_store s"
  by (auto simp: Dataslot_update_dataset_def get_ds_def put_ds_def map_update map_update_same
      split: option.splits if_splits)

lemma apply_filter_ds_filtering:
  "apply_filter_ds a s = Some s' \<Longrightarrow>
     map cfg_filtering (dataset_store s') = map cfg_filtering (dataset_store s)
     \<and> row_store s' = row_store s"
  by (auto simp: apply_filter_ds_def get_ds_def put_ds_def map_update map_update_same
      split: option.splits if_splits)

lemma get_dataset_steps:
  assumes "get_dataset slot_index filt_index apply_filter ret_color s = Inr ((dsend, color), s')"
  obtains s1 r row slot fstates s2 s3 where
    "construct_matrix s = Inr ((), s1)"
    "py_get (matrix s1) slot_index = Some r" "get_row s1 r = Some row"
    "py_get (slots s1) slot_index = Some slot"
    "map_of (element_states s1) slot = Some fstates"
    "set_filters (py_range (filt_index + 1)) row fstates s1 = Inr s2"
    "py_get row filt_index = Some dsend"
    "Dataslot_update_dataset slot dsend s2 = Some s3"
    "(if apply_filter then apply_filter_ds dsend s3 else Some s3) = Some s'"
  using assms unfolding get_dataset_def
  by (auto split: sum.splits option.splits prod.splits)



lemma row_prefix: "n \<le> length xs \<Longrightarrow> map ((!) xs) [0 ..< n] = take n xs"
  by (simp add: list_eq_iff_nth_eq)



subsection \<open>The datasets of a plot\<close>

lemma set_filters_mask:
  "set_filters idxs row fstates s = Inr s' \<Longrightarrow>
     map filter_mask (dataset_store s') = map filter_mask (dataset_store s)"
proof (induction idxs arbitrary: s)
  case Nil
  then show ?case by simp
next
  case (Cons ii idxs)
  from Cons.prems obtain s1 where st: "set_filter ii row fstates s = Inr s1"
    and r: "set_filters idxs row fstates s1 = Inr s'"
    by (auto split: sum.splits)
  from set_filter_step [OF st]
  have "map filter_mask (dataset_store s1) = map filter_mask (dataset_store s)"
    by (simp add: map_update map_update_same)
  with Cons.IH [OF r] show ?case by simp
qed

lemma Dataslot_update_dataset_mask:
  "Dataslot_update_dataset sl a s = Some s' \<Longrightarrow>
     map filter_mask (dataset_store s') = map filter_mask (dataset_store s)"
  by (auto simp: Dataslot_update_dataset_def get_ds_def put_ds_def map_update map_update_same
      split: option.splits if_splits)

lemma mask_computed_cong:
  "map filter_mask (dataset_store s') = map filter_mask (dataset_store s) \<Longrightarrow>
     mask_computed s' = mask_computed s"
proof (intro ext)
  fix a
  assume e: "map filter_mask (dataset_store s') = map filter_mask (dataset_store s)"
  then have l: "length (dataset_store s') = length (dataset_store s)"
    by (metis length_map)
  show "mask_computed s' a = mask_computed s a"
  proof (cases "a < length (dataset_store s)")
    case True
    with l have "filter_mask (dataset_store s' ! a) = map filter_mask (dataset_store s') ! a"
      by simp
    also from e True have "\<dots> = filter_mask (dataset_store s ! a)" by simp
    finally show ?thesis using l by (simp add: mask_computed_def)
  next
    case False
    with l show ?thesis by (simp add: mask_computed_def)
  qed
qed

lemma apply_filter_ds_mask:
  "apply_filter_ds a s = Some s' \<Longrightarrow>
     mask_computed s' a \<and> (\<forall>b. mask_computed s b \<longrightarrow> mask_computed s' b)"
  by (auto simp: apply_filter_ds_def get_ds_def put_ds_def mask_computed_def nth_list_update
      split: option.splits if_splits)

lemma construct_matrix_config:
  assumes "construct_matrix s = Inr (u, sm)"
  shows "slots sm = slots s \<and> slots_used sm = slots_used s
    \<and> element_states sm = element_states s
    \<and> Dataslot_instances sm = Dataslot_instances s \<and> filters sm = filters s
    \<and> matrix_hash sm = Some (hashobj (slots s, filters s))
    \<and> (matrix_hash s = Some (hashobj (slots s, filters s)) \<longrightarrow> sm = s)"
  using construct_matrix_cases [OF assms] by (auto simp: stores_only_def)

lemma get_dataset_effect:
  assumes g: "get_dataset slot_index filt_index apply_filter ret_color s = Inr ((a, c), s')"
  shows "slots s' = slots s \<and> slots_used s' = slots_used s
    \<and> element_states s' = element_states s
    \<and> Dataslot_instances s' = Dataslot_instances s \<and> filters s' = filters s
    \<and> matrix_hash s' = Some (hashobj (slots s, filters s))
    \<and> matrix_cell s' slot_index filt_index = Some a
    \<and> (apply_filter \<longrightarrow> mask_computed s' a)
    \<and> (matrix_hash s = Some (hashobj (slots s, filters s)) \<longrightarrow>
         matrix s' = matrix s \<and> row_store s' = row_store s
         \<and> (\<forall>b. mask_computed s b \<longrightarrow> mask_computed s' b))"
proof -
  from g obtain sm r row slot fstates s2 s3 where
    cm: "construct_matrix s = Inr ((), sm)"
    and r: "py_get (matrix sm) slot_index = Some r" and row: "get_row sm r = Some row"
    and sf: "set_filters (py_range (filt_index + 1)) row fstates sm = Inr s2"
    and de: "py_get row filt_index = Some a"
    and up: "Dataslot_update_dataset slot a s2 = Some s3"
    and ap: "(if apply_filter then apply_filter_ds a s3 else Some s3) = Some s'"
    by (rule get_dataset_steps)
  note c = construct_matrix_config [OF cm]
  note e = set_filters_effect [OF sf]
  from e have so2: "stores_only sm s2" and rs2: "row_store s2 = row_store sm" by simp_all
  from up have so3: "stores_only s2 s3" and rs3: "row_store s3 = row_store s2"
    by (simp_all add: Dataslot_update_dataset_stores Dataslot_update_dataset_filtering)
  from ap have so4: "stores_only s3 s'" and rs4: "row_store s' = row_store s3"
    by (auto simp: apply_filter_ds_stores apply_filter_ds_filtering stores_only_refl
        split: if_splits)
  from so2 so3 so4 have so: "stores_only sm s'" by (blast intro: stores_only_trans)
  from rs2 rs3 rs4 have rs: "row_store s' = row_store sm" by simp
  from so have f: "slots s' = slots sm" "slots_used s' = slots_used sm"
    "element_states s' = element_states sm" "Dataslot_instances s' = Dataslot_instances sm"
    "filters s' = filters sm" "matrix_hash s' = matrix_hash sm" "matrix s' = matrix sm"
    by (simp_all add: stores_only_def)
  from r row de f rs have cell: "matrix_cell s' slot_index filt_index = Some a"
    by (auto simp: matrix_cell_def get_row_def split: if_splits)
  have m2: "mask_computed s2 = mask_computed sm"
    by (rule mask_computed_cong [OF set_filters_mask [OF sf]])
  have m3: "mask_computed s3 = mask_computed s2"
    by (rule mask_computed_cong [OF Dataslot_update_dataset_mask [OF up]])
  from ap have m4: "(apply_filter \<longrightarrow> mask_computed s' a)
      \<and> (\<forall>b. mask_computed s3 b \<longrightarrow> mask_computed s' b)"
    by (auto simp: apply_filter_ds_mask split: if_splits)
  from c f cell m2 m3 m4 rs show ?thesis by auto
qed

lemma matrix_cell_cong:
  "matrix s' = matrix s \<Longrightarrow> row_store s' = row_store s \<Longrightarrow> matrix_cell s' = matrix_cell s"
  by (intro ext) (simp add: matrix_cell_def get_row_def split: option.splits)

lemma plot_uses_slot_cong:
  "element_states s' = element_states s \<Longrightarrow> slots_used s' = slots_used s \<Longrightarrow>
     plot_uses_slot s' = plot_uses_slot s"
  by (intro ext) (simp add: plot_uses_slot_def)

lemma plot_datasets_loop_cases:
  assumes "plot_datasets_loop (i # rest) plot_id k s = Inr ((dss, sts), s')"
  obtains (skip) "i < length (slots s)" "\<not> plot_uses_slot s plot_id (slots s ! i)"
      "plot_datasets_loop rest plot_id k s = Inr ((dss, sts), s')"
  | (take) ds c s1 st dss' sts' where "i < length (slots s)"
      "plot_uses_slot s plot_id (slots s ! i)"
      "get_dataset (int i) k True False s = Inr ((ds, c), s1)"
      "map_of (Dataslot_instances s1) (slots s ! i) = Some st"
      "plot_datasets_loop rest plot_id k s1 = Inr ((dss', sts'), s')"
      "dss = ds # dss'" "sts = (slots s ! i, st) # sts'"
proof -
  from assms obtain slot_id d enabled where
    p: "py_get (slots s) (int i) = Some slot_id"
    and d: "map_of (element_states s) slot_id = Some d"
    and e: "map_of d plot_id = Some enabled"
    by (auto split: option.splits)
  from p have i: "i < length (slots s)" and sl: "slot_id = slots s ! i"
    by (auto simp: py_get_def Let_def split: if_splits)
  from d e have u: "plot_uses_slot s plot_id slot_id = (enabled \<and> slot_id \<in> set (slots_used s))"
    by (auto simp: plot_uses_slot_def)
  show thesis
  proof (cases "enabled \<and> slot_id \<in> set (slots_used s)")
    case False
    with assms p d e have "plot_datasets_loop rest plot_id k s = Inr ((dss, sts), s')"
      by auto
    with i u sl False show thesis by (intro skip) auto
  next
    case True
    with assms p d e obtain ds c s1 st dss' sts' where
      "get_dataset (int i) k True False s = Inr ((ds, c), s1)"
      "map_of (Dataslot_instances s1) slot_id = Some st"
      "plot_datasets_loop rest plot_id k s1 = Inr ((dss', sts'), s')"
      "dss = ds # dss'" "sts = (slot_id, st) # sts'"
      by (auto split: sum.splits option.splits prod.splits)
    with i u sl True show thesis by (intro take) auto
  qed
qed

lemma plot_datasets_loop_current:
  assumes "plot_datasets_loop idxs plot_id k s = Inr ((dss, sts), s')"
    and "matrix_hash s = Some (hashobj (slots s, filters s))"
  shows "matrix s' = matrix s \<and> row_store s' = row_store s
    \<and> (\<forall>b. mask_computed s b \<longrightarrow> mask_computed s' b)"
  using assms
proof (induction idxs arbitrary: s dss sts)
  case Nil
  then show ?case by simp
next
  case (Cons i rest)
  from Cons.prems(1) show ?case
  proof (cases rule: plot_datasets_loop_cases)
    case skip
    with Cons.IH [OF skip(3) Cons.prems(2)] show ?thesis by simp
  next
    case (take ds c s1 st dss' sts')
    note e = get_dataset_effect [OF take(3)]
    from e Cons.prems(2) have h: "matrix_hash s1 = Some (hashobj (slots s1, filters s1))"
      by simp
    from e Cons.prems(2) Cons.IH [OF take(5) h] show ?thesis by simp
  qed
qed

lemma plot_datasets_loop_effect:
  assumes "plot_datasets_loop idxs plot_id k s = Inr ((dss, sts), s')"
  shows "slots s' = slots s \<and> slots_used s' = slots_used s
    \<and> element_states s' = element_states s
    \<and> Dataslot_instances s' = Dataslot_instances s \<and> filters s' = filters s
    \<and> (\<forall>i \<in> set idxs. i < length (slots s))
    \<and> map Some sts
        = map (\<lambda>i. map_option (Pair (slots s ! i)) (map_of (Dataslot_instances s) (slots s ! i)))
            (filter (\<lambda>i. plot_uses_slot s plot_id (slots s ! i)) idxs)
    \<and> map Some dss
        = map (\<lambda>i. matrix_cell s' (int i) k)
            (filter (\<lambda>i. plot_uses_slot s plot_id (slots s ! i)) idxs)
    \<and> (\<forall>a \<in> set dss. mask_computed s' a)"
  using assms
proof (induction idxs arbitrary: s dss sts)
  case Nil
  then show ?case by simp
next
  case (Cons i rest)
  from Cons.prems show ?case
  proof (cases rule: plot_datasets_loop_cases)
    case skip
    note b = Cons.IH [OF skip(3)]
    from skip(2) have fl: "filter (\<lambda>i. plot_uses_slot s plot_id (slots s ! i)) (i # rest)
        = filter (\<lambda>i. plot_uses_slot s plot_id (slots s ! i)) rest"
      by simp
    from skip(1) b have ix: "\<forall>i \<in> set (i # rest). i < length (slots s)" by simp
    from b ix show ?thesis unfolding fl by blast
  next
    case (take ds c s1 st dss' sts')
    note e = get_dataset_effect [OF take(3)]
    note b = Cons.IH [OF take(5)]
    from e have eq: "slots s1 = slots s" "slots_used s1 = slots_used s"
      "element_states s1 = element_states s" "Dataslot_instances s1 = Dataslot_instances s"
      "filters s1 = filters s" by simp_all
    from e have h: "matrix_hash s1 = Some (hashobj (slots s1, filters s1))" by simp
    note a = plot_datasets_loop_current [OF take(5) h]
    from a have mc: "matrix_cell s' = matrix_cell s1" by (intro matrix_cell_cong) simp_all
    from e have pu: "plot_uses_slot s1 = plot_uses_slot s" by (intro plot_uses_slot_cong) simp_all
    from e a have m: "mask_computed s' ds" by simp
    from e mc have cell: "matrix_cell s' (int i) k = Some ds" by simp
    note b' = b [unfolded eq pu]
    from b' have bs: "map Some sts'
        = map (\<lambda>i. map_option (Pair (slots s ! i)) (map_of (Dataslot_instances s) (slots s ! i)))
            (filter (\<lambda>i. plot_uses_slot s plot_id (slots s ! i)) rest)"
      and bd: "map Some dss'
        = map (\<lambda>i. matrix_cell s' (int i) k)
            (filter (\<lambda>i. plot_uses_slot s plot_id (slots s ! i)) rest)"
      and bm: "\<forall>a \<in> set dss'. mask_computed s' a"
      and bi: "\<forall>i \<in> set rest. i < length (slots s)"
      and bf: "slots s' = slots s \<and> slots_used s' = slots_used s
        \<and> element_states s' = element_states s
        \<and> Dataslot_instances s' = Dataslot_instances s \<and> filters s' = filters s"
      by blast+
    from take(2) have fl: "filter (\<lambda>i. plot_uses_slot s plot_id (slots s ! i)) (i # rest)
        = i # filter (\<lambda>i. plot_uses_slot s plot_id (slots s ! i)) rest"
      by simp
    from take(4) eq have st: "map_of (Dataslot_instances s) (slots s ! i) = Some st" by simp
    have g1: "map Some sts
        = map (\<lambda>i. map_option (Pair (slots s ! i)) (map_of (Dataslot_instances s) (slots s ! i)))
            (filter (\<lambda>i. plot_uses_slot s plot_id (slots s ! i)) (i # rest))"
      by (simp only: fl take(7) list.map bs st option.map)
    have g2: "map Some dss
        = map (\<lambda>i. matrix_cell s' (int i) k)
            (filter (\<lambda>i. plot_uses_slot s plot_id (slots s ! i)) (i # rest))"
      by (simp only: fl take(6) list.map bd cell)
    from bm m have g3: "\<forall>a \<in> set dss. mask_computed s' a"
      by (simp add: take(6))
    from bi take(1) have g4: "\<forall>i \<in> set (i # rest). i < length (slots s)" by simp
    from bf g1 g2 g3 g4 show ?thesis by blast
  qed
qed

lemma py_get_nat: "py_get xs (int i) = Some x \<Longrightarrow> i < length xs \<and> x = xs ! i"
  by (auto simp: py_get_def Let_def split: if_splits)

lemma py_get_mem: "py_get xs k = Some x \<Longrightarrow> x \<in> set xs"
  by (auto simp: py_get_def Let_def split: if_splits)

lemma stage_set_stores: "stores_only s s1 \<Longrightarrow> stage_set s1 = stage_set s"
  by (intro ext) (simp add: stage_set_def stores_only_def)

lemma set_filter_stage:
  assumes "set_filter ii row fstates s = Inr s1"
  shows "stage_set s fstates ii (cfg_filtering (dataset_store s1 ! (row ! ii)))"
  using assms
  by (auto simp: set_filter_def Let_def stage_set_def Filter_update_dataset_def
      disable_filters_def get_ds_def put_ds_def
      split: option.splits if_splits)

lemma set_filters_untouched:
  assumes "set_filters idxs row fstates s = Inr s'" and "a \<notin> (!) row ` set idxs"
  shows "dataset_store s' ! a = dataset_store s ! a"
  using assms
proof (induction idxs arbitrary: s)
  case Nil
  then show ?case by simp
next
  case (Cons ii idxs)
  from Cons.prems obtain s1 where st: "set_filter ii row fstates s = Inr s1"
    and r: "set_filters idxs row fstates s1 = Inr s'"
    by (auto split: sum.splits)
  from Cons.prems have n: "a \<noteq> row ! ii" and m: "a \<notin> (!) row ` set idxs" by auto
  from set_filter_step [OF st] n have "dataset_store s1 ! a = dataset_store s ! a"
    by simp
  with Cons.IH [OF r m] show ?case by simp
qed

lemma set_filters_stage:
  assumes "set_filters idxs row fstates s = Inr s'" and "distinct (map ((!) row) idxs)"
    and "ii \<in> set idxs"
  shows "stage_set s fstates ii (cfg_filtering (dataset_store s' ! (row ! ii)))"
  using assms
proof (induction idxs arbitrary: s)
  case Nil
  then show ?case by simp
next
  case (Cons jj idxs)
  from Cons.prems obtain s1 where st: "set_filter jj row fstates s = Inr s1"
    and r: "set_filters idxs row fstates s1 = Inr s'"
    by (auto split: sum.splits)
  from set_filter_step [OF st] have so: "stores_only s s1" by blast
  from Cons.prems have nj: "row ! jj \<notin> (!) row ` set idxs" and d: "distinct (map ((!) row) idxs)"
    by simp_all
  show ?case
  proof (cases "ii = jj")
    case True
    from set_filters_untouched [OF r nj] set_filter_stage [OF st] True show ?thesis by simp
  next
    case False
    with Cons.prems have m: "ii \<in> set idxs" by simp
    from Cons.IH [OF r d m] stage_set_stores [OF so] show ?thesis by simp
  qed
qed

lemma Dataslot_update_dataset_other:
  "Dataslot_update_dataset sl b s = Some s' \<Longrightarrow>
     cfg_filtering (dataset_store s' ! a) = cfg_filtering (dataset_store s ! a)
     \<and> filter_mask (dataset_store s' ! a) = filter_mask (dataset_store s ! a)
     \<and> (a \<noteq> b \<longrightarrow> dataset_store s' ! a = dataset_store s ! a)"
  by (auto simp: Dataslot_update_dataset_def get_ds_def put_ds_def nth_list_update
      split: option.splits if_splits)

lemma apply_filter_ds_other:
  "apply_filter_ds b s = Some s' \<Longrightarrow>
     cfg_filtering (dataset_store s' ! a) = cfg_filtering (dataset_store s ! a)
     \<and> mask_current s' b
     \<and> (a \<noteq> b \<longrightarrow> dataset_store s' ! a = dataset_store s ! a)"
  by (auto simp: apply_filter_ds_def get_ds_def put_ds_def nth_list_update mask_current_def
      split: option.splits if_splits)

lemma construct_matrix_stage:
  assumes "construct_matrix s = Inr (u, sm)"
  shows "stage_set sm = stage_set s \<and> num_filters sm = num_filters s"
  using construct_matrix_cases [OF assms]
  by (auto simp: stage_set_def stores_only_def fun_eq_iff num_filters_def)

lemma get_dataset_row:
  assumes g: "get_dataset (int i) k af rc s = Inr ((d, c), s1)"
  obtains sm fstates s2 s3 where
    "construct_matrix s = Inr ((), sm)"
    "i < length (slots s)"
    "map_of (element_states s) (slots s ! i) = Some fstates"
    "set_filters (py_range (k + 1)) (matrix_row s1 i) fstates sm = Inr s2"
    "py_get (matrix_row s1 i) k = Some d"
    "Dataslot_update_dataset (slots s ! i) d s2 = Some s3"
    "(if af then apply_filter_ds d s3 else Some s3) = Some s1"
    "stores_only sm s1" "matrix_row sm i = matrix_row s1 i"
proof -
  from g obtain sm r row slot fstates s2 s3 where
    cm: "construct_matrix s = Inr ((), sm)"
    and r: "py_get (matrix sm) (int i) = Some r" and row: "get_row sm r = Some row"
    and sl: "py_get (slots sm) (int i) = Some slot"
    and fs: "map_of (element_states sm) slot = Some fstates"
    and sf: "set_filters (py_range (k + 1)) row fstates sm = Inr s2"
    and de: "py_get row k = Some d"
    and up: "Dataslot_update_dataset slot d s2 = Some s3"
    and ap: "(if af then apply_filter_ds d s3 else Some s3) = Some s1"
    by (rule get_dataset_steps)
  note c = construct_matrix_config [OF cm]
  note e = set_filters_effect [OF sf]
  from e have so2: "stores_only sm s2" and rs2: "row_store s2 = row_store sm" by simp_all
  from up have so3: "stores_only s2 s3" and rs3: "row_store s3 = row_store s2"
    by (simp_all add: Dataslot_update_dataset_stores Dataslot_update_dataset_filtering)
  from ap have so4: "stores_only s3 s1" and rs4: "row_store s1 = row_store s3"
    by (auto simp: apply_filter_ds_stores apply_filter_ds_filtering stores_only_refl
        split: if_splits)
  from so2 so3 so4 have so: "stores_only sm s1" by (blast intro: stores_only_trans)
  from rs2 rs3 rs4 have rs: "row_store s1 = row_store sm" by simp
  from so have m: "matrix s1 = matrix sm" by (simp add: stores_only_def)
  from py_get_nat [OF r] have r': "r = matrix sm ! i" by simp
  from row have "row = row_store sm ! r" by (auto simp: get_row_def split: if_splits)
  with r' m rs have mr: "matrix_row s1 i = row" "matrix_row sm i = matrix_row s1 i"
    by (simp_all add: matrix_row_def)
  from py_get_nat [OF sl] c have i: "i < length (slots s)" and sl': "slot = slots s ! i"
    by simp_all
  from fs c sl' have fs': "map_of (element_states s) (slots s ! i) = Some fstates" by simp
  from cm i fs' sf de up ap so mr sl' show thesis
    by (intro that [of sm fstates s2 s3]) simp_all
qed

lemma get_dataset_chain:
  assumes g: "get_dataset (int i) (int (num_filters s) - 1) True False s = Inr ((d, c), s1)"
    and dr: "distinct (matrix_row s1 i)"
  shows "chain_filtered s s1 i \<and> mask_current s1 d \<and> d \<in> set (matrix_row s1 i)
    \<and> stage_set s1 = stage_set s \<and> num_filters s1 = num_filters s"
proof -
  define row where "row = matrix_row s1 i"
  define n where "n = num_filters s"
  from g obtain sm fstates s2 s3 where
    cm: "construct_matrix s = Inr ((), sm)"
    and fs: "map_of (element_states s) (slots s ! i) = Some fstates"
    and sf: "set_filters (py_range (int n - 1 + 1)) row fstates sm = Inr s2"
    and de: "py_get row (int n - 1) = Some d"
    and up: "Dataslot_update_dataset (slots s ! i) d s2 = Some s3"
    and ap: "(if True then apply_filter_ds d s3 else Some s3) = Some s1"
    and so: "stores_only sm s1"
    unfolding row_def n_def by (rule get_dataset_row)
  from sf have sf': "set_filters [0 ..< n] row fstates sm = Inr s2"
    by (simp add: py_range_def)
  note cs = construct_matrix_stage [OF cm]
  note e = set_filters_effect [OF sf']
  from e have "\<forall>jj \<in> set [0 ..< n]. jj < length row" by simp
  then have nl: "n \<le> length row" by (cases n) auto
  from dr have "distinct (take n row)" by (simp add: row_def)
  with nl have dd: "distinct (map ((!) row) [0 ..< n])" by (simp add: row_prefix)
  from ap have ap': "apply_filter_ds d s3 = Some s1" by simp
  have st: "ii < length row \<and> stage_set s fstates ii (cfg_filtering (dataset_store s1 ! (row ! ii)))"
    if "ii < n" for ii
  proof -
    from that have m: "ii \<in> set [0 ..< n]" by simp
    from set_filters_stage [OF sf' dd m] cs
    have "stage_set s fstates ii (cfg_filtering (dataset_store s2 ! (row ! ii)))" by simp
    moreover from Dataslot_update_dataset_other [OF up, of "row ! ii"]
    have "cfg_filtering (dataset_store s3 ! (row ! ii)) = cfg_filtering (dataset_store s2 ! (row ! ii))"
      by simp
    moreover from apply_filter_ds_other [OF ap', of "row ! ii"]
    have "cfg_filtering (dataset_store s1 ! (row ! ii)) = cfg_filtering (dataset_store s3 ! (row ! ii))"
      by simp
    ultimately show ?thesis using that nl by simp
  qed
  from fs st have cf: "chain_filtered s s1 i"
    by (simp add: chain_filtered_def list_all_iff row_def [symmetric] n_def [symmetric])
  from apply_filter_ds_other [OF ap'] have mc: "mask_current s1 d" by simp
  from py_get_mem [OF de] have dm: "d \<in> set (matrix_row s1 i)" by (simp add: row_def)
  from stage_set_stores [OF so] cs have ss: "stage_set s1 = stage_set s" by simp
  from so cs have nf: "num_filters s1 = num_filters s"
    by (simp add: stores_only_def num_filters_def)
  from cf mc dm ss nf show ?thesis by blast
qed

lemma get_dataset_untouched:
  assumes g: "get_dataset (int i) k af rc s = Inr ((d, c), s1)"
    and h: "matrix_hash s = Some (hashobj (slots s, filters s))"
    and a: "a \<notin> set (matrix_row s i)"
  shows "dataset_store s1 ! a = dataset_store s ! a"
proof -
  from g obtain sm fstates s2 s3 where
    cm: "construct_matrix s = Inr ((), sm)"
    and sf: "set_filters (py_range (k + 1)) (matrix_row s1 i) fstates sm = Inr s2"
    and de: "py_get (matrix_row s1 i) k = Some d"
    and up: "Dataslot_update_dataset (slots s ! i) d s2 = Some s3"
    and ap: "(if af then apply_filter_ds d s3 else Some s3) = Some s1"
    and mr: "matrix_row sm i = matrix_row s1 i"
    by (rule get_dataset_row)
  from construct_matrix_config [OF cm] h have sm: "sm = s" by simp
  from a mr sm have a1: "a \<notin> set (matrix_row s1 i)" by simp
  from set_filters_effect [OF sf]
  have "\<forall>ii \<in> set (py_range (k + 1)). ii < length (matrix_row s1 i)" by simp
  with a1 have "a \<notin> (!) (matrix_row s1 i) ` set (py_range (k + 1))"
    by (auto simp: in_set_conv_nth)
  from set_filters_untouched [OF sf this] sm
  have e2: "dataset_store s2 ! a = dataset_store s ! a" by simp
  from py_get_mem [OF de] a1 have ad: "a \<noteq> d" by blast
  from Dataslot_update_dataset_other [OF up, of a] ad
  have e3: "dataset_store s3 ! a = dataset_store s2 ! a" by simp
  from ap ad have e4: "dataset_store s1 ! a = dataset_store s3 ! a"
    by (cases af) (simp_all add: apply_filter_ds_other)
  from e2 e3 e4 show ?thesis by simp
qed

lemma matrix_row_cong:
  "matrix s' = matrix s \<Longrightarrow> row_store s' = row_store s \<Longrightarrow> matrix_row s' = matrix_row s"
  by (intro ext) (simp add: matrix_row_def)

lemma chain_filtered_cong:
  "element_states s1 = element_states s \<Longrightarrow> slots s1 = slots s \<Longrightarrow>
   stage_set s1 = stage_set s \<Longrightarrow> num_filters s1 = num_filters s \<Longrightarrow>
     chain_filtered s1 = chain_filtered s"
  by (intro ext) (simp add: chain_filtered_def split: option.splits)

lemma chain_filtered_transfer:
  assumes "chain_filtered s s1 i" and "matrix_row s' i = matrix_row s1 i"
    and "\<forall>a \<in> set (matrix_row s1 i). dataset_store s' ! a = dataset_store s1 ! a"
  shows "chain_filtered s s' i"
  using assms
  by (auto simp: chain_filtered_def list_all_iff split: option.splits)

lemma plot_datasets_loop_untouched:
  assumes "plot_datasets_loop idxs plot_id k s = Inr ((dss, sts), s')"
    and "matrix_hash s = Some (hashobj (slots s, filters s))"
    and "\<forall>i \<in> set idxs. plot_uses_slot s plot_id (slots s ! i) \<longrightarrow> a \<notin> set (matrix_row s i)"
  shows "dataset_store s' ! a = dataset_store s ! a"
  using assms
proof (induction idxs arbitrary: s dss sts)
  case Nil
  then show ?case by simp
next
  case (Cons i rest)
  from Cons.prems(1) show ?case
  proof (cases rule: plot_datasets_loop_cases)
    case skip
    from Cons.prems(3)
    have "\<forall>i \<in> set rest. plot_uses_slot s plot_id (slots s ! i) \<longrightarrow> a \<notin> set (matrix_row s i)"
      by simp
    from Cons.IH [OF skip(3) Cons.prems(2) this] show ?thesis .
  next
    case (take ds c s1 st dss' sts')
    note e = get_dataset_effect [OF take(3)]
    from e Cons.prems(2) have h: "matrix_hash s1 = Some (hashobj (slots s1, filters s1))"
      by simp
    from e Cons.prems(2) have mr: "matrix_row s1 = matrix_row s"
      by (intro matrix_row_cong) simp_all
    from e have pu: "plot_uses_slot s1 = plot_uses_slot s" by (intro plot_uses_slot_cong) simp_all
    from e have sl: "slots s1 = slots s" by simp
    from Cons.prems(3) take(2) have ai: "a \<notin> set (matrix_row s i)" by simp
    from Cons.prems(3)
    have "\<forall>i \<in> set rest. plot_uses_slot s1 plot_id (slots s1 ! i) \<longrightarrow> a \<notin> set (matrix_row s1 i)"
      unfolding mr pu sl by simp
    from Cons.IH [OF take(5) h this] get_dataset_untouched [OF take(3) Cons.prems(2) ai]
    show ?thesis by simp
  qed
qed

lemma plot_datasets_loop_chain:
  assumes "plot_datasets_loop idxs plot_id k s = Inr ((dss, sts), s')"
    and "k = int (num_filters s) - 1"
    and "distinct (concat (map (matrix_row s')
           (filter (\<lambda>i. plot_uses_slot s plot_id (slots s ! i)) idxs)))"
  shows "(\<forall>i \<in> set (filter (\<lambda>i. plot_uses_slot s plot_id (slots s ! i)) idxs).
            chain_filtered s s' i)
    \<and> (\<forall>a \<in> set dss. mask_current s' a)"
  using assms
proof (induction idxs arbitrary: s dss sts)
  case Nil
  then show ?case by simp
next
  case (Cons i rest)
  from Cons.prems(1) show ?case
  proof (cases rule: plot_datasets_loop_cases)
    case skip
    from skip(2) have fl: "filter (\<lambda>i. plot_uses_slot s plot_id (slots s ! i)) (i # rest)
        = filter (\<lambda>i. plot_uses_slot s plot_id (slots s ! i)) rest"
      by simp
    from Cons.prems(3) have d: "distinct (concat (map (matrix_row s')
           (filter (\<lambda>i. plot_uses_slot s plot_id (slots s ! i)) rest)))"
      unfolding fl .
    from Cons.IH [OF skip(3) Cons.prems(2) d] show ?thesis unfolding fl .
  next
    case (take ds c s1 st dss' sts')
    define sel where "sel = filter (\<lambda>i. plot_uses_slot s plot_id (slots s ! i)) rest"
    from take(2) have fl: "filter (\<lambda>i. plot_uses_slot s plot_id (slots s ! i)) (i # rest)
        = i # sel"
      by (simp add: sel_def)
    note e = get_dataset_effect [OF take(3)]
    from e have h: "matrix_hash s1 = Some (hashobj (slots s1, filters s1))" by simp
    note a = plot_datasets_loop_current [OF take(5) h]
    from a have mr: "matrix_row s' = matrix_row s1" by (intro matrix_row_cong) simp_all
    from e have pu: "plot_uses_slot s1 = plot_uses_slot s" by (intro plot_uses_slot_cong) simp_all
    from e have sl: "slots s1 = slots s" and es: "element_states s1 = element_states s"
      by simp_all
    from Cons.prems(3) have dc: "distinct (concat (matrix_row s1 i # map (matrix_row s1) sel))"
      unfolding fl mr by simp
    then have di: "distinct (matrix_row s1 i)"
      and ds: "distinct (concat (map (matrix_row s1) sel))"
      and dj: "\<forall>j \<in> set sel. set (matrix_row s1 i) \<inter> set (matrix_row s1 j) = {}"
      by auto
    from take(3) Cons.prems(2)
    have g: "get_dataset (int i) (int (num_filters s) - 1) True False s = Inr ((ds, c), s1)"
      by simp
    note gc = get_dataset_chain [OF g di]
    from gc have cf1: "chain_filtered s s1 i" and mc1: "mask_current s1 ds"
      and dm: "ds \<in> set (matrix_row s1 i)" and ss: "stage_set s1 = stage_set s"
      and nf: "num_filters s1 = num_filters s"
      by blast+
    from Cons.prems(2) nf have k1: "k = int (num_filters s1) - 1" by simp
    have sel1: "filter (\<lambda>i. plot_uses_slot s1 plot_id (slots s1 ! i)) rest = sel"
      unfolding pu sl sel_def ..
    from ds have d1: "distinct (concat (map (matrix_row s')
           (filter (\<lambda>i. plot_uses_slot s1 plot_id (slots s1 ! i)) rest)))"
      unfolding sel1 mr .
    note ih = Cons.IH [OF take(5) k1 d1, unfolded sel1]
    have cc: "chain_filtered s1 = chain_filtered s"
      using es sl ss nf by (rule chain_filtered_cong)
    from ih have ih1: "\<forall>j \<in> set sel. chain_filtered s s' j"
      and ih2: "\<forall>a \<in> set dss'. mask_current s' a"
      unfolding cc by blast+
    have un: "dataset_store s' ! a = dataset_store s1 ! a" if m: "a \<in> set (matrix_row s1 i)" for a
    proof -
      have "\<forall>j \<in> set rest. plot_uses_slot s1 plot_id (slots s1 ! j)
          \<longrightarrow> a \<notin> set (matrix_row s1 j)"
      proof (intro ballI impI)
        fix j
        assume "j \<in> set rest" and "plot_uses_slot s1 plot_id (slots s1 ! j)"
        then have "j \<in> set sel" unfolding sel1 [symmetric] by simp
        with dj m show "a \<notin> set (matrix_row s1 j)" by blast
      qed
      from plot_datasets_loop_untouched [OF take(5) h this] show ?thesis .
    qed
    from mr have mri: "matrix_row s' i = matrix_row s1 i" by simp
    from un have una: "\<forall>a \<in> set (matrix_row s1 i). dataset_store s' ! a = dataset_store s1 ! a"
      by blast
    have cf: "chain_filtered s s' i"
      using cf1 mri una by (rule chain_filtered_transfer)
    from un [OF dm] mc1 have mc: "mask_current s' ds" by (simp add: mask_current_def)
    from cf ih1 have g1: "\<forall>j \<in> set (i # sel). chain_filtered s s' j" by simp
    from mc ih2 have g2: "\<forall>a \<in> set dss. mask_current s' a" by (simp add: take(6))
    from g1 g2 show ?thesis unfolding fl by blast
  qed
qed

lemma plot_datasets_loop_states:
  assumes "plot_datasets_loop idxs plot_id k s = Inr (x, s')"
  shows "\<forall>i \<in> set idxs. has_plot_state s plot_id (slots s ! i)"
  using assms
proof (induction idxs arbitrary: s x)
  case Nil
  then show ?case by simp
next
  case (Cons i rest)
  from Cons.prems obtain slot_id d enabled where
    p: "py_get (slots s) (int i) = Some slot_id"
    and d: "map_of (element_states s) slot_id = Some d"
    and e: "map_of d plot_id = Some enabled"
    by (auto split: option.splits)
  from py_get_nat [OF p] d e have hi: "has_plot_state s plot_id (slots s ! i)"
    by (simp add: has_plot_state_def)
  obtain dss sts where x: "x = (dss, sts)" by (cases x)
  from Cons.prems [unfolded x] have "\<forall>i \<in> set rest. has_plot_state s plot_id (slots s ! i)"
  proof (cases rule: plot_datasets_loop_cases)
    case skip
    from Cons.IH [OF skip(3)] show ?thesis .
  next
    case (take ds c s1 st dss' sts')
    note ef = get_dataset_effect [OF take(3)]
    from ef have "has_plot_state s1 = has_plot_state s"
      by (intro ext) (simp add: has_plot_state_def)
    with Cons.IH [OF take(5)] ef show ?thesis by simp
  qed
  with hi show ?case by simp
qed

text \<open>
  C9: when \<^verbatim>\<open>get_plot_datasets\<close> returns, the slot states are, in slot order,
  the identifier and configuration of exactly the slots whose element state
  for the plot is true and which are in the used list, and every slot of the
  pipeline has an element state for the plot: where one has none, the call
  does not return (it raises KeyError when it reaches that slot).  The
  datasets are, for the same slots in the same order, the cells
  \<^verbatim>\<open>matrix[i][num_filters - 1]\<close> of the matrix as it stands afterwards: the
  cell the last filter is pushed onto (in a row as \<^verbatim>\<open>construct_matrix\<close>
  builds it, the cell before the last one, and the raw dataset when there is
  one filter or none), and the event mask of each of them has been computed.  Where the rows of the selected
  slots share no cell, every filter is set along each of these rows, the
  cell \<^verbatim>\<open>matrix[i][ii]\<close> carrying the configuration of the filter at position
  ii when the slot enables it and it is used, and filtering switched off
  otherwise, and the mask of each returned dataset is the one of its
  configuration as it stands.  A slot that is not enabled or not used
  contributes nothing.
\<close>

theorem get_plot_datasets_returns_last_filter_cells:
  "(get_plot_datasets plot_id s = Inr ((datasets, states), s') \<longrightarrow>
      map Some states
        = map (\<lambda>slot_id. map_option (Pair slot_id) (map_of (Dataslot_instances s) slot_id))
            (filter (plot_uses_slot s plot_id) (slots s))
      \<and> map Some datasets
        = map (\<lambda>i. matrix_cell s' (int i) (int (num_filters s) - 1))
            (filter (\<lambda>i. plot_uses_slot s plot_id (slots s ! i)) [0 ..< length (slots s)])
      \<and> (\<forall>a \<in> set datasets. mask_computed s' a)
      \<and> (\<forall>slot_id \<in> set (slots s). has_plot_state s plot_id slot_id)
      \<and> (distinct (concat (map (matrix_row s')
            (filter (\<lambda>i. plot_uses_slot s plot_id (slots s ! i)) [0 ..< length (slots s)])))
          \<longrightarrow> (\<forall>i \<in> set (filter (\<lambda>i. plot_uses_slot s plot_id (slots s ! i))
                             [0 ..< length (slots s)]).
                   chain_filtered s s' i)
              \<and> (\<forall>a \<in> set datasets. mask_current s' a)))
   \<and> ((\<exists>slot_id \<in> set (slots s). \<not> has_plot_state s plot_id slot_id)
        \<longrightarrow> (\<exists>e t. get_plot_datasets plot_id s = Inl (e, t)))"
proof (intro conjI impI)
  assume g: "get_plot_datasets plot_id s = Inr ((datasets, states), s')"
  then have l: "plot_datasets_loop [0 ..< length (slots s)] plot_id (int (num_filters s) - 1) s
      = Inr ((datasets, states), s')"
    by (simp add: get_plot_datasets_def py_range_def)
  note e = plot_datasets_loop_effect [OF l]
  from e have es: "map Some states
      = map (\<lambda>i. map_option (Pair (slots s ! i)) (map_of (Dataslot_instances s) (slots s ! i)))
          (filter (\<lambda>i. plot_uses_slot s plot_id (slots s ! i)) [0 ..< length (slots s)])"
    and ed: "map Some datasets
       = map (\<lambda>i. matrix_cell s' (int i) (int (num_filters s) - 1))
           (filter (\<lambda>i. plot_uses_slot s plot_id (slots s ! i)) [0 ..< length (slots s)])"
    and em: "\<forall>a \<in> set datasets. mask_computed s' a"
    by blast+
  have "map (\<lambda>slot_id. map_option (Pair slot_id) (map_of (Dataslot_instances s) slot_id))
           (filter (plot_uses_slot s plot_id) (map ((!) (slots s)) [0 ..< length (slots s)]))
      = map (\<lambda>i. map_option (Pair (slots s ! i)) (map_of (Dataslot_instances s) (slots s ! i)))
            (filter (\<lambda>i. plot_uses_slot s plot_id (slots s ! i)) [0 ..< length (slots s)])"
    by (simp add: filter_map comp_def)
  then have "map (\<lambda>slot_id. map_option (Pair slot_id) (map_of (Dataslot_instances s) slot_id))
           (filter (plot_uses_slot s plot_id) (slots s))
      = map (\<lambda>i. map_option (Pair (slots s ! i)) (map_of (Dataslot_instances s) (slots s ! i)))
            (filter (\<lambda>i. plot_uses_slot s plot_id (slots s ! i)) [0 ..< length (slots s)])"
    by (simp only: map_nth)
  with es show "map Some states
       = map (\<lambda>slot_id. map_option (Pair slot_id) (map_of (Dataslot_instances s) slot_id))
           (filter (plot_uses_slot s plot_id) (slots s))"
    by (rule trans [OF _ sym])
  from ed show "map Some datasets
       = map (\<lambda>i. matrix_cell s' (int i) (int (num_filters s) - 1))
           (filter (\<lambda>i. plot_uses_slot s plot_id (slots s ! i)) [0 ..< length (slots s)])" .
  from em show "\<forall>a \<in> set datasets. mask_computed s' a" .
  from plot_datasets_loop_states [OF l]
  show "\<forall>slot_id \<in> set (slots s). has_plot_state s plot_id slot_id"
    by (auto simp: in_set_conv_nth)
  assume d: "distinct (concat (map (matrix_row s')
            (filter (\<lambda>i. plot_uses_slot s plot_id (slots s ! i)) [0 ..< length (slots s)])))"
  note c = plot_datasets_loop_chain [OF l refl d]
  from c show "\<forall>i \<in> set (filter (\<lambda>i. plot_uses_slot s plot_id (slots s ! i))
                             [0 ..< length (slots s)]).
                   chain_filtered s s' i"
    by (rule conjunct1)
  from c show "\<forall>a \<in> set datasets. mask_current s' a" by (rule conjunct2)
next
  assume m: "\<exists>slot_id \<in> set (slots s). \<not> has_plot_state s plot_id slot_id"
  show "\<exists>e t. get_plot_datasets plot_id s = Inl (e, t)"
  proof (cases "get_plot_datasets plot_id s")
    case (Inl et)
    then show ?thesis by (cases et) simp
  next
    case (Inr x)
    then have "plot_datasets_loop [0 ..< length (slots s)] plot_id (int (num_filters s) - 1) s
      = Inr (fst x, snd x)"
      by (simp add: get_plot_datasets_def py_range_def)
    from plot_datasets_loop_states [OF this]
    have "\<forall>slot_id \<in> set (slots s). has_plot_state s plot_id slot_id"
      by (auto simp: in_set_conv_nth)
    with m show ?thesis by blast
  qed
qed

theorem get_plot_datasets_returns_last_filter_cells_witness:
  "get_plot_datasets ''P1'' two_slots_two_filters
     = Inr (([1, 4], [(''S1'', slot_one), (''S2'', slot_two)]),
            after (get_plot_datasets ''P1'' two_slots_two_filters))
   \<and> filter (\<lambda>i. plot_uses_slot two_slots_two_filters ''P1'' (slots two_slots_two_filters ! i))
        [0 ..< length (slots two_slots_two_filters)] = [0, 1]
   \<and> distinct (concat (map (matrix_row (after (get_plot_datasets ''P1'' two_slots_two_filters)))
        [0, 1]))
   \<and> map Some [(''S1'', slot_one), (''S2'', slot_two)]
       = map (\<lambda>slot_id. map_option (Pair slot_id)
                (map_of (Dataslot_instances two_slots_two_filters) slot_id))
           (filter (plot_uses_slot two_slots_two_filters ''P1'') (slots two_slots_two_filters))
   \<and> map Some [1, 4]
       = map (\<lambda>i. matrix_cell (after (get_plot_datasets ''P1'' two_slots_two_filters)) (int i)
                (int (num_filters two_slots_two_filters) - 1))
           [0, 1]
   \<and> mask_computed (after (get_plot_datasets ''P1'' two_slots_two_filters)) 1
   \<and> mask_computed (after (get_plot_datasets ''P1'' two_slots_two_filters)) 4
   \<and> has_plot_state two_slots_two_filters ''P1'' ''S1''
   \<and> has_plot_state two_slots_two_filters ''P1'' ''S2''
   \<and> chain_filtered two_slots_two_filters
        (after (get_plot_datasets ''P1'' two_slots_two_filters)) 0
   \<and> chain_filtered two_slots_two_filters
        (after (get_plot_datasets ''P1'' two_slots_two_filters)) 1
   \<and> mask_current (after (get_plot_datasets ''P1'' two_slots_two_filters)) 1
   \<and> mask_current (after (get_plot_datasets ''P1'' two_slots_two_filters)) 4
   \<and> map (\<lambda>a. cfg_filtering
              (dataset_store (after (get_plot_datasets ''P1'' two_slots_two_filters)) ! a))
        [0, 1, 3, 4]
       = [filter_one, default_filtering\<lparr>enable_filters := False\<rparr>,
          default_filtering\<lparr>enable_filters := False\<rparr>, filter_two]
   \<and> ''S1'' \<in> set (slots plot_then_slot)
   \<and> \<not> has_plot_state plot_then_slot ''P1'' ''S1''
   \<and> (\<exists>e t. get_plot_datasets ''P1'' plot_then_slot = Inl (e, t))"
proof -
  have h: "get_plot_datasets ''P1'' two_slots_two_filters
     = Inr (([1, 4], [(''S1'', slot_one), (''S2'', slot_two)]),
            after (get_plot_datasets ''P1'' two_slots_two_filters))"
    by code_simp
  have f: "filter (\<lambda>i. plot_uses_slot two_slots_two_filters ''P1'' (slots two_slots_two_filters ! i))
        [0 ..< length (slots two_slots_two_filters)] = [0, 1]"
    by code_simp
  have d: "distinct (concat (map (matrix_row (after (get_plot_datasets ''P1'' two_slots_two_filters)))
        [0, 1]))"
    by code_simp
  have sl: "slots two_slots_two_filters = [''S1'', ''S2'']" by code_simp
  have v: "map (\<lambda>a. cfg_filtering
              (dataset_store (after (get_plot_datasets ''P1'' two_slots_two_filters)) ! a))
        [0, 1, 3, 4]
       = [filter_one, default_filtering\<lparr>enable_filters := False\<rparr>,
          default_filtering\<lparr>enable_filters := False\<rparr>, filter_two]"
    by code_simp
  have k: "''S1'' \<in> set (slots plot_then_slot)
      \<and> \<not> has_plot_state plot_then_slot ''P1'' ''S1''"
    by code_simp
  note c = get_plot_datasets_returns_last_filter_cells
    [where plot_id = "''P1''" and s = two_slots_two_filters and datasets = "[1, 4]"
       and states = "[(''S1'', slot_one), (''S2'', slot_two)]"
       and s' = "after (get_plot_datasets ''P1'' two_slots_two_filters)",
     THEN conjunct1, rule_format, OF h, unfolded f]
  note e = get_plot_datasets_returns_last_filter_cells
    [where plot_id = "''P1''" and s = plot_then_slot, THEN conjunct2, rule_format]
  from c have c1: "map Some [(''S1'', slot_one), (''S2'', slot_two)]
       = map (\<lambda>slot_id. map_option (Pair slot_id)
                (map_of (Dataslot_instances two_slots_two_filters) slot_id))
           (filter (plot_uses_slot two_slots_two_filters ''P1'') (slots two_slots_two_filters))"
    by (rule conjunct1)
  from c have c2: "map Some [1, 4]
       = map (\<lambda>i. matrix_cell (after (get_plot_datasets ''P1'' two_slots_two_filters)) (int i)
                (int (num_filters two_slots_two_filters) - 1))
           [0, 1]"
    by blast
  from c have "\<forall>a \<in> set [1, 4 :: nat].
      mask_computed (after (get_plot_datasets ''P1'' two_slots_two_filters)) a"
    by blast
  then have c3: "mask_computed (after (get_plot_datasets ''P1'' two_slots_two_filters)) 1"
    "mask_computed (after (get_plot_datasets ''P1'' two_slots_two_filters)) 4"
    by simp_all
  from c have "\<forall>slot_id \<in> set (slots two_slots_two_filters).
      has_plot_state two_slots_two_filters ''P1'' slot_id"
    by blast
  then have c4: "has_plot_state two_slots_two_filters ''P1'' ''S1''"
    "has_plot_state two_slots_two_filters ''P1'' ''S2''"
    unfolding sl by simp_all
  from c d have "(\<forall>i \<in> set [0, 1 :: nat]. chain_filtered two_slots_two_filters
        (after (get_plot_datasets ''P1'' two_slots_two_filters)) i)
     \<and> (\<forall>a \<in> set [1, 4 :: nat].
          mask_current (after (get_plot_datasets ''P1'' two_slots_two_filters)) a)"
    by blast
  then have c5: "chain_filtered two_slots_two_filters
        (after (get_plot_datasets ''P1'' two_slots_two_filters)) 0"
    "chain_filtered two_slots_two_filters
        (after (get_plot_datasets ''P1'' two_slots_two_filters)) 1"
    "mask_current (after (get_plot_datasets ''P1'' two_slots_two_filters)) 1"
    "mask_current (after (get_plot_datasets ''P1'' two_slots_two_filters)) 4"
    by simp_all
  from k e have c6: "\<exists>e t. get_plot_datasets ''P1'' plot_then_slot = Inl (e, t)"
    by blast
  from h f d c1 c2 c3 c4 c5 v k c6 show ?thesis by blast
qed

text \<open>
  With two filters a row has three cells and the plot gets the second one,
  one hierarchy level above the raw dataset; the last cell of the row, two
  levels above it, is not returned and its mask is never computed.  With one
  filter the plot gets the raw dataset.  After \<^verbatim>\<open>add_plot\<close> and then
  \<^verbatim>\<open>add_slot\<close> the slot has no element state for the plot, and the call
  raises KeyError.
\<close>

theorem plot_views_are_one_filter_short:
  "get_plot_datasets ''P1'' two_slots_two_filters
     = Inr (([1, 4], [(''S1'', slot_one), (''S2'', slot_two)]),
            after (get_plot_datasets ''P1'' two_slots_two_filters))
   \<and> num_filters two_slots_two_filters = 2
   \<and> chain_depth (after (get_plot_datasets ''P1'' two_slots_two_filters)) 1 = 1
   \<and> chain_depth (after (get_plot_datasets ''P1'' two_slots_two_filters)) 4 = 1
   \<and> matrix_row (after (get_plot_datasets ''P1'' two_slots_two_filters)) 0 = [0, 1, 2]
   \<and> chain_depth (after (get_plot_datasets ''P1'' two_slots_two_filters)) 2 = 2
   \<and> filter_mask (dataset_store (after (get_plot_datasets ''P1'' two_slots_two_filters)) ! 2) = None
   \<and> get_plot_datasets ''P1'' two_slots_one_plot
       = Inr (([0], [(''S1'', slot_one)]), after (get_plot_datasets ''P1'' two_slots_one_plot))
   \<and> num_filters two_slots_one_plot = 1
   \<and> ds_origin (dataset_store (after (get_plot_datasets ''P1'' two_slots_one_plot)) ! 0)
       = FromFile ''one.rtdc''
   \<and> plots plot_then_slot = [''P1''] \<and> slots plot_then_slot = [''S1'']
   \<and> get_plot_datasets ''P1'' plot_then_slot = Inl (KeyError, plot_then_slot)"
  by code_simp

subsection \<open>Applying a serialized state\<close>

lemma add_filter_state:
  "slots s = [] \<Longrightarrow>
     add_filter (Some (State i c)) None s
       = Inr (i, s\<lparr>filters := filters s @ [i], filters_used := filters_used s @ [i],
                   Filter_instances := AList.update i c (Filter_instances s)\<rparr>)"
  by (cases s) (simp add: add_filter_def resolve_filter_def py_insert_def slot_ids_def Let_def)

lemma add_filters_state:
  "slots s = [] \<Longrightarrow>
     add_filters fs s
       = Inr (s\<lparr>filters := filters s @ map fst fs, filters_used := filters_used s @ map fst fs,
                Filter_instances := foldl (\<lambda>t p. AList.update (fst p) (snd p) t) (Filter_instances s) fs\<rparr>)"
proof (induction fs arbitrary: s)
  case Nil
  then show ?case by (cases s) simp
next
  case (Cons p fs)
  obtain i c where p: "p = (i, c)" by (cases p)
  let ?s1 = "s\<lparr>filters := filters s @ [i], filters_used := filters_used s @ [i],
                   Filter_instances := AList.update i c (Filter_instances s)\<rparr>"
  from Cons.prems have e: "slots ?s1 = []" by simp
  from Cons.prems p Cons.IH [OF e] show ?case
    by (cases s) (simp add: add_filter_state)
qed

lemma add_plot_state:
  "slots s = [] \<Longrightarrow>
     add_plot (Some (State i c)) None s
       = Inr (i, s\<lparr>plots := plots s @ [i],
                   Plot_instances := AList.update i c (Plot_instances s)\<rparr>)"
  by (cases s) (simp add: add_plot_def resolve_plot_def py_insert_def slot_ids_def Let_def)

lemma add_plots_state:
  "slots s = [] \<Longrightarrow>
     add_plots ps s
       = Inr (s\<lparr>plots := plots s @ map fst ps,
                Plot_instances := foldl (\<lambda>t p. AList.update (fst p) (snd p) t) (Plot_instances s) ps\<rparr>)"
proof (induction ps arbitrary: s)
  case Nil
  then show ?case by (cases s) simp
next
  case (Cons p ps)
  obtain i c where p: "p = (i, c)" by (cases p)
  let ?s1 = "s\<lparr>plots := plots s @ [i], Plot_instances := AList.update i c (Plot_instances s)\<rparr>"
  from Cons.prems have e: "slots ?s1 = []" by simp
  from Cons.prems p Cons.IH [OF e] show ?case
    by (cases s) (simp add: add_plot_state)
qed

lemma init_for_filters_state:
  "map_of (element_states s) i = Some d \<Longrightarrow>
     init_for_filters fl i s
       = Inr (s\<lparr>element_states :=
                  AList.update i (fold (\<lambda>f. AList.update f False) fl d) (element_states s)\<rparr>)"
proof (induction fl arbitrary: s d)
  case Nil
  then show ?case by (cases s) (simp add: update_triv)
next
  case (Cons f fl)
  let ?s1 = "s\<lparr>element_states := AList.update i (AList.update f False d) (element_states s)\<rparr>"
  from Cons.prems have st: "set_element_false i f s = Some ?s1"
    by (simp add: set_element_false_def)
  have m: "map_of (element_states ?s1) i = Some (AList.update f False d)"
    by (simp add: update_conv')
  from st Cons.IH [OF m] show ?case by (cases s) simp
qed

lemma add_slot_state:
  "add_slot f (Some (State i c)) None None s
     = check_features f i
         (s\<lparr>slots := slots s @ [i], slots_used := slots_used s @ [i],
            element_states :=
              AList.update i (fold (\<lambda>f. AList.update f False) (filters s) []) (element_states s),
            Dataslot_instances := AList.update i c (Dataslot_instances s)\<rparr>)"
proof -
  let ?s3 = "s\<lparr>Dataslot_instances := AList.update i c (Dataslot_instances s),
               slots := slots s @ [i],
               element_states := AList.update i [] (element_states s)\<rparr>"
  have m: "map_of (element_states ?s3) i = Some []" by (simp add: update_conv')
  have "add_slot f (Some (State i c)) None None s
     = (case init_for_filters (filters s) i ?s3 of
          Inl e \<Rightarrow> Inl e
        | Inr s4 \<Rightarrow> check_features f i (s4\<lparr>slots_used := slots_used s4 @ [i]\<rparr>))"
    by (cases s) (simp add: add_slot_def resolve_slot_def py_insert_def filter_ids_def Let_def)
  also have "\<dots> = check_features f i
         (s\<lparr>slots := slots s @ [i], slots_used := slots_used s @ [i],
            element_states :=
              AList.update i (fold (\<lambda>f. AList.update f False) (filters s) []) (element_states s),
            Dataslot_instances := AList.update i c (Dataslot_instances s)\<rparr>)"
    unfolding init_for_filters_state [OF m] by (cases s) simp
  finally show ?thesis .
qed

lemma check_features_cases:
  "check_features f i s = r \<Longrightarrow>
     after r = s
     \<and> (case r of
          Inr (v, t) \<Rightarrow> v = i
        | Inl (e, t) \<Rightarrow>
            (e = ValueError
             \<and> (\<exists>p0 p. path_of s (hd (slots s)) = Some p0 \<and> path_of s i = Some p \<and> f p0 \<noteq> f p))
            \<or> (path_of s (hd (slots s)) = None \<or> path_of s i = None))"
  by (auto simp: check_features_def after_def split: option.splits if_splits)

lemma add_slots_state:
  assumes "slots s = [] \<or> map_of (Dataslot_instances s) (hd (slots s)) \<noteq> None"
  shows "(\<forall>t. add_slots f ss s = Inr t \<longrightarrow>
            t = s\<lparr>slots := slots s @ map fst ss, slots_used := slots_used s @ map fst ss,
              element_states :=
                foldl (\<lambda>t p. AList.update (fst p) (fold (\<lambda>f. AList.update f False) (filters s) []) t)
                  (element_states s) ss,
              Dataslot_instances := foldl (\<lambda>t p. AList.update (fst p) (snd p) t) (Dataslot_instances s) ss\<rparr>)
       \<and> (\<forall>e t. add_slots f ss s = Inl (e, t) \<longrightarrow>
            e = ValueError
            \<and> (\<exists>k. k < length ss
                 \<and> t = s\<lparr>slots := slots s @ map fst (take (Suc k) ss), slots_used := slots_used s @ map fst (take (Suc k) ss),
              element_states :=
                foldl (\<lambda>t p. AList.update (fst p) (fold (\<lambda>f. AList.update f False) (filters s) []) t)
                  (element_states s) (take (Suc k) ss),
              Dataslot_instances := foldl (\<lambda>t p. AList.update (fst p) (snd p) t) (Dataslot_instances s) (take (Suc k) ss)\<rparr>
                 \<and> (\<exists>p0. path_of t (hd (slots t)) = Some p0
                       \<and> f p0 \<noteq> f (slot_path (snd (ss ! k))))))"
  using assms
proof (induction ss arbitrary: s)
  case Nil
  have "s = s\<lparr>slots := slots s @ map fst [], slots_used := slots_used s @ map fst [],
              element_states :=
                foldl (\<lambda>t p. AList.update (fst p) (fold (\<lambda>f. AList.update f False) (filters s) []) t)
                  (element_states s) [],
              Dataslot_instances := foldl (\<lambda>t p. AList.update (fst p) (snd p) t) (Dataslot_instances s) []\<rparr>"
    by (cases s) simp
  then show ?case by simp
next
  case (Cons p ss)
  obtain i c where p: "p = (i, c)" by (cases p)
  define s5 where "s5 = s\<lparr>slots := slots s @ [i], slots_used := slots_used s @ [i],
            element_states :=
              AList.update i (fold (\<lambda>f. AList.update f False) (filters s) []) (element_states s),
            Dataslot_instances := AList.update i c (Dataslot_instances s)\<rparr>"
  have a: "add_slot f (Some (State i c)) None None s = check_features f i s5"
    unfolding s5_def by (rule add_slot_state)
  have reg: "path_of s5 i = Some (slot_path c)" "path_of s5 (hd (slots s5)) \<noteq> None"
    using Cons.prems
    by (cases "slots s"; auto simp: s5_def path_of_def update_conv')+
  have inv: "slots s5 = [] \<or> map_of (Dataslot_instances s5) (hd (slots s5)) \<noteq> None"
    using reg by (simp add: path_of_def)
  have f5: "filters s5 = filters s" by (simp add: s5_def)
  note ih1 = Cons.IH [OF inv, THEN conjunct1, rule_format]
  note ih2 = Cons.IH [OF inv, THEN conjunct2, rule_format]
  have one: "s5 = s\<lparr>slots := slots s @ map fst (take (Suc 0) (p # ss)), slots_used := slots_used s @ map fst (take (Suc 0) (p # ss)),
              element_states :=
                foldl (\<lambda>t p. AList.update (fst p) (fold (\<lambda>f. AList.update f False) (filters s) []) t)
                  (element_states s) (take (Suc 0) (p # ss)),
              Dataslot_instances := foldl (\<lambda>t p. AList.update (fst p) (snd p) t) (Dataslot_instances s) (take (Suc 0) (p # ss))\<rparr>"
    by (simp add: s5_def p)
  show ?case
  proof (cases "check_features f i s5")
    case (Inl et)
    obtain e t where et: "et = (e, t)" by (cases et)
    from check_features_cases [OF Inl] et reg have e: "e = ValueError" and t: "t = s5"
      and m: "\<exists>p0. path_of s5 (hd (slots s5)) = Some p0 \<and> f p0 \<noteq> f (slot_path c)"
      by (auto simp: after_def)
    from a Inl et p have r: "add_slots f (p # ss) s = Inl (ValueError, s5)"
      using e t by simp
    from m p have m': "\<exists>p0. path_of s5 (hd (slots s5)) = Some p0
        \<and> f p0 \<noteq> f (slot_path (snd ((p # ss) ! 0)))"
      by simp
    from one m' have "\<exists>k. k < length (p # ss)
                 \<and> s5 = s\<lparr>slots := slots s @ map fst (take (Suc k) (p # ss)), slots_used := slots_used s @ map fst (take (Suc k) (p # ss)),
              element_states :=
                foldl (\<lambda>t p. AList.update (fst p) (fold (\<lambda>f. AList.update f False) (filters s) []) t)
                  (element_states s) (take (Suc k) (p # ss)),
              Dataslot_instances := foldl (\<lambda>t p. AList.update (fst p) (snd p) t) (Dataslot_instances s) (take (Suc k) (p # ss))\<rparr>
                 \<and> (\<exists>p0. path_of s5 (hd (slots s5)) = Some p0
                       \<and> f p0 \<noteq> f (slot_path (snd ((p # ss) ! k))))"
      by (intro exI [of _ 0]) simp
    with r show ?thesis by simp
  next
    case (Inr vt)
    obtain v t where vt: "vt = (v, t)" by (cases vt)
    from check_features_cases [OF Inr] vt have t: "t = s5" by (simp add: after_def)
    from a Inr vt t p have r: "add_slots f (p # ss) s = add_slots f ss s5" by simp
    show ?thesis
    proof (intro conjI allI impI)
      fix t'
      assume "add_slots f (p # ss) s = Inr t'"
      with r have "add_slots f ss s5 = Inr t'" by simp
      from ih1 [OF this] have "t' = s5\<lparr>slots := slots s5 @ map fst ss, slots_used := slots_used s5 @ map fst ss,
              element_states :=
                foldl (\<lambda>t p. AList.update (fst p) (fold (\<lambda>f. AList.update f False) (filters s5) []) t)
                  (element_states s5) ss,
              Dataslot_instances := foldl (\<lambda>t p. AList.update (fst p) (snd p) t) (Dataslot_instances s5) ss\<rparr>" .
      then show "t' = s\<lparr>slots := slots s @ map fst (p # ss), slots_used := slots_used s @ map fst (p # ss),
              element_states :=
                foldl (\<lambda>t p. AList.update (fst p) (fold (\<lambda>f. AList.update f False) (filters s) []) t)
                  (element_states s) (p # ss),
              Dataslot_instances := foldl (\<lambda>t p. AList.update (fst p) (snd p) t) (Dataslot_instances s) (p # ss)\<rparr>"
        by (simp add: s5_def p)
    next
      fix e t'
      assume "add_slots f (p # ss) s = Inl (e, t')"
      with r have "add_slots f ss s5 = Inl (e, t')" by simp
      from ih2 [OF this] show "e = ValueError" by blast
    next
      fix e t'
      assume "add_slots f (p # ss) s = Inl (e, t')"
      with r have "add_slots f ss s5 = Inl (e, t')" by simp
      from ih2 [OF this] obtain k where k: "k < length ss" and
        t': "t' = s5\<lparr>slots := slots s5 @ map fst (take (Suc k) ss), slots_used := slots_used s5 @ map fst (take (Suc k) ss),
              element_states :=
                foldl (\<lambda>t p. AList.update (fst p) (fold (\<lambda>f. AList.update f False) (filters s5) []) t)
                  (element_states s5) (take (Suc k) ss),
              Dataslot_instances := foldl (\<lambda>t p. AList.update (fst p) (snd p) t) (Dataslot_instances s5) (take (Suc k) ss)\<rparr>"
        and m: "\<exists>p0. path_of t' (hd (slots t')) = Some p0 \<and> f p0 \<noteq> f (slot_path (snd (ss ! k)))"
        by blast
      from t' have "t' = s\<lparr>slots := slots s @ map fst (take (Suc (Suc k)) (p # ss)), slots_used := slots_used s @ map fst (take (Suc (Suc k)) (p # ss)),
              element_states :=
                foldl (\<lambda>t p. AList.update (fst p) (fold (\<lambda>f. AList.update f False) (filters s) []) t)
                  (element_states s) (take (Suc (Suc k)) (p # ss)),
              Dataslot_instances := foldl (\<lambda>t p. AList.update (fst p) (snd p) t) (Dataslot_instances s) (take (Suc (Suc k)) (p # ss))\<rparr>"
        by (simp add: s5_def p)
      with k m show "\<exists>k. k < length (p # ss)
                 \<and> t' = s\<lparr>slots := slots s @ map fst (take (Suc k) (p # ss)), slots_used := slots_used s @ map fst (take (Suc k) (p # ss)),
              element_states :=
                foldl (\<lambda>t p. AList.update (fst p) (fold (\<lambda>f. AList.update f False) (filters s) []) t)
                  (element_states s) (take (Suc k) (p # ss)),
              Dataslot_instances := foldl (\<lambda>t p. AList.update (fst p) (snd p) t) (Dataslot_instances s) (take (Suc k) (p # ss))\<rparr>
                 \<and> (\<exists>p0. path_of t' (hd (slots t')) = Some p0
                       \<and> f p0 \<noteq> f (slot_path (snd ((p # ss) ! k))))"
        by (intro exI [of _ "Suc k"]) simp
    qed
  qed
qed

lemma dict_eq_refl: "(\<And>a. veq a a) \<Longrightarrow> dict_eq veq xs xs"
  by (auto simp: dict_eq_def list_all_iff map_of_eq_None_iff split: option.splits)

lemma state_eq_refl: "state_eq a a"
  by (simp add: state_eq_def dict_eq_refl)

lemma setstate_replay:
  assumes "\<not> (case old_state_value s of None \<Rightarrow> False | Some old \<Rightarrow> state_eq old state)"
  shows "setstate f state s =
    (case add_slots f (st_slots state)
       (s\<lparr>filters := map fst (st_filters state), filters_used := st_filters_used state,
          plots := map fst (st_plots state), slots := [], slots_used := [], element_states := [],
          old_state := Some
            \<lparr>old_filters = st_filters state, old_plots = st_plots state,
             old_slots = st_slots state, old_filters_used = None,
             old_slots_used = Some (st_slots_used state),
             old_elements = Some (st_elements state)\<rparr>,
          Filter_instances :=
            foldl (\<lambda>t p. AList.update (fst p) (snd p) t) (Filter_instances s) (st_filters state),
          Plot_instances :=
            foldl (\<lambda>t p. AList.update (fst p) (snd p) t) (Plot_instances s) (st_plots state)\<rparr>) of
       Inl e \<Rightarrow> Inl e
     | Inr s4 \<Rightarrow>
         Inr ((), s4\<lparr>slots_used := st_slots_used state, element_states := st_elements state,
                     old_state := map_option
                       (\<lambda>c. c\<lparr>old_slots_used := None, old_elements := None\<rparr>) (old_state s4)\<rparr>))"
  using assms
  by (cases s) (simp add: setstate_def reset_def keep_state_def Let_def add_filters_state add_plots_state)

text \<open>
  C8: \<^verbatim>\<open>__setstate__\<close> returns at once, leaving the pipeline untouched, when
  the state equals by value the kept dictionary \<^verbatim>\<open>self._old_state\<close> as it
  stands; applying a state again right after an application of it that
  returned is such a call.  Otherwise, when the call returns, the filter,
  plot and slot lists are exactly the identifiers of the state in the
  state's order, whatever the pipeline held before; the used lists and the
  element states are those of the state; an instance has been created or
  updated from every filter, plot and slot state, in the state's order; the
  kept dictionary is the state, and it shares the used lists and the
  element states with the pipeline; the cached matrix and the stored rows
  and datasets are untouched.  Otherwise, when the call raises, it raises
  the ValueError of \<^verbatim>\<open>add_slot\<close> for a slot state k whose features differ
  from those of the first slot: every filter and every plot of the state is
  in the pipeline and the used filters are already those of the state, the
  slots are those up to k, all of them marked used, each with the element
  state False for every filter, and the kept dictionary is already the
  state.  So every filter and plot has been added and the used filters have
  been restored before the first slot is added; the used slots and the
  element states are restored after the last.
\<close>

theorem setstate_skips_or_restores:
  "((case old_state_value s of None \<Rightarrow> False | Some old \<Rightarrow> state_eq old state)
      \<longrightarrow> setstate f state s = Inr ((), s))
   \<and> (\<not> (case old_state_value s of None \<Rightarrow> False | Some old \<Rightarrow> state_eq old state)
       \<and> setstate f state s = Inr ((), s')
      \<longrightarrow> s' = s\<lparr>filters := map fst (st_filters state),
              filters_used := st_filters_used state,
              plots := map fst (st_plots state),
              slots := map fst (st_slots state),
              slots_used := st_slots_used state,
              element_states := st_elements state,
              old_state := Some
                \<lparr>old_filters = st_filters state, old_plots = st_plots state,
                 old_slots = st_slots state, old_filters_used = None,
                 old_slots_used = None, old_elements = None\<rparr>,
              Filter_instances :=
                foldl (\<lambda>t p. AList.update (fst p) (snd p) t) (Filter_instances s) (st_filters state),
              Plot_instances :=
                foldl (\<lambda>t p. AList.update (fst p) (snd p) t) (Plot_instances s) (st_plots state),
              Dataslot_instances :=
                foldl (\<lambda>t p. AList.update (fst p) (snd p) t) (Dataslot_instances s) (st_slots state)\<rparr>
          \<and> old_state_value s' = Some state)
   \<and> (\<not> (case old_state_value s of None \<Rightarrow> False | Some old \<Rightarrow> state_eq old state)
       \<and> setstate f state s = Inl (e, t)
      \<longrightarrow> e = ValueError
          \<and> (\<exists>k. k < length (st_slots state)
                \<and> t = s\<lparr>filters := map fst (st_filters state),
                          filters_used := st_filters_used state,
                          plots := map fst (st_plots state),
                          slots := map fst (take (Suc k) (st_slots state)),
                          slots_used := map fst (take (Suc k) (st_slots state)),
                          element_states :=
                            foldl (\<lambda>t p. AList.update (fst p)
                                     (fold (\<lambda>f. AList.update f False) (map fst (st_filters state)) []) t)
                              [] (take (Suc k) (st_slots state)),
                          old_state := Some
                            \<lparr>old_filters = st_filters state, old_plots = st_plots state,
                             old_slots = st_slots state, old_filters_used = None,
                             old_slots_used = Some (st_slots_used state),
                             old_elements = Some (st_elements state)\<rparr>,
                          Filter_instances :=
                            foldl (\<lambda>t p. AList.update (fst p) (snd p) t) (Filter_instances s) (st_filters state),
                          Plot_instances :=
                            foldl (\<lambda>t p. AList.update (fst p) (snd p) t) (Plot_instances s) (st_plots state),
                          Dataslot_instances :=
                            foldl (\<lambda>t p. AList.update (fst p) (snd p) t) (Dataslot_instances s)
                              (take (Suc k) (st_slots state))\<rparr>
                   \<and> (\<exists>p0. path_of t (hd (slots t)) = Some p0
                         \<and> f p0 \<noteq> f (slot_path (snd (st_slots state ! k))))))
   \<and> (setstate f state s = Inr ((), s') \<longrightarrow> setstate f state s' = Inr ((), s'))"
proof -
  let ?G = "case old_state_value s of None \<Rightarrow> False | Some old \<Rightarrow> state_eq old state"
  let ?s3 = "s\<lparr>filters := map fst (st_filters state), filters_used := st_filters_used state,
          plots := map fst (st_plots state), slots := [], slots_used := [], element_states := [],
          old_state := Some
            \<lparr>old_filters = st_filters state, old_plots = st_plots state,
             old_slots = st_slots state, old_filters_used = None,
             old_slots_used = Some (st_slots_used state),
             old_elements = Some (st_elements state)\<rparr>,
          Filter_instances :=
            foldl (\<lambda>t p. AList.update (fst p) (snd p) t) (Filter_instances s) (st_filters state),
          Plot_instances :=
            foldl (\<lambda>t p. AList.update (fst p) (snd p) t) (Plot_instances s) (st_plots state)\<rparr>"
  let ?R = "s\<lparr>filters := map fst (st_filters state),
               filters_used := st_filters_used state,
               plots := map fst (st_plots state),
               slots := map fst (st_slots state),
               slots_used := st_slots_used state,
               element_states := st_elements state,
               old_state := Some
                 \<lparr>old_filters = st_filters state, old_plots = st_plots state,
                  old_slots = st_slots state, old_filters_used = None,
                  old_slots_used = None, old_elements = None\<rparr>,
               Filter_instances :=
                 foldl (\<lambda>t p. AList.update (fst p) (snd p) t) (Filter_instances s) (st_filters state),
               Plot_instances :=
                 foldl (\<lambda>t p. AList.update (fst p) (snd p) t) (Plot_instances s) (st_plots state),
               Dataslot_instances :=
                 foldl (\<lambda>t p. AList.update (fst p) (snd p) t) (Dataslot_instances s) (st_slots state)\<rparr>"
  have inv: "slots ?s3 = [] \<or> map_of (Dataslot_instances ?s3) (hd (slots ?s3)) \<noteq> None"
    by simp
  note a1 = add_slots_state [OF inv, where f = f and ss = "st_slots state", THEN conjunct1, rule_format]
  note a2 = add_slots_state [OF inv, where f = f and ss = "st_slots state", THEN conjunct2, rule_format]
  have skip: "?G \<longrightarrow> setstate f state s = Inr ((), s)"
    by (simp add: setstate_def)
  have ret: "s' = ?R \<and> old_state_value s' = Some state"
    if ng: "\<not> ?G" and r: "setstate f state s = Inr ((), s')"
  proof -
    from r obtain s4 where s4: "add_slots f (st_slots state) ?s3 = Inr s4"
      and s': "s' = s4\<lparr>slots_used := st_slots_used state, element_states := st_elements state,
                     old_state := map_option
                       (\<lambda>c. c\<lparr>old_slots_used := None, old_elements := None\<rparr>) (old_state s4)\<rparr>"
      unfolding setstate_replay [OF ng] by (auto split: sum.splits)
    from a1 [OF s4] have
      "s4 = ?s3\<lparr>slots := slots ?s3 @ map fst (st_slots state), slots_used := slots_used ?s3 @ map fst (st_slots state),
              element_states :=
                foldl (\<lambda>t p. AList.update (fst p) (fold (\<lambda>f. AList.update f False) (filters ?s3) []) t)
                  (element_states ?s3) (st_slots state),
              Dataslot_instances := foldl (\<lambda>t p. AList.update (fst p) (snd p) t) (Dataslot_instances ?s3) (st_slots state)\<rparr>" .
    with s' have e: "s' = ?R" by (cases s) simp
    have "old_state_value ?R = Some state"
      by (cases state) (simp add: old_state_value_def)
    with e show ?thesis by simp
  qed
  have rai: "e = ValueError
          \<and> (\<exists>k. k < length (st_slots state)
                \<and> t = s\<lparr>filters := map fst (st_filters state),
                          filters_used := st_filters_used state,
                          plots := map fst (st_plots state),
                          slots := map fst (take (Suc k) (st_slots state)),
                          slots_used := map fst (take (Suc k) (st_slots state)),
                          element_states :=
                            foldl (\<lambda>t p. AList.update (fst p)
                                     (fold (\<lambda>f. AList.update f False) (map fst (st_filters state)) []) t)
                              [] (take (Suc k) (st_slots state)),
                          old_state := Some
                            \<lparr>old_filters = st_filters state, old_plots = st_plots state,
                             old_slots = st_slots state, old_filters_used = None,
                             old_slots_used = Some (st_slots_used state),
                             old_elements = Some (st_elements state)\<rparr>,
                          Filter_instances :=
                            foldl (\<lambda>t p. AList.update (fst p) (snd p) t) (Filter_instances s) (st_filters state),
                          Plot_instances :=
                            foldl (\<lambda>t p. AList.update (fst p) (snd p) t) (Plot_instances s) (st_plots state),
                          Dataslot_instances :=
                            foldl (\<lambda>t p. AList.update (fst p) (snd p) t) (Dataslot_instances s)
                              (take (Suc k) (st_slots state))\<rparr>
                   \<and> (\<exists>p0. path_of t (hd (slots t)) = Some p0
                         \<and> f p0 \<noteq> f (slot_path (snd (st_slots state ! k)))))"
    if ng: "\<not> ?G" and r: "setstate f state s = Inl (e, t)"
  proof -
    from r have s4: "add_slots f (st_slots state) ?s3 = Inl (e, t)"
      unfolding setstate_replay [OF ng] by (auto split: sum.splits)
    from a2 [OF s4] obtain k where e: "e = ValueError" and k: "k < length (st_slots state)"
      and t: "t = ?s3\<lparr>slots := slots ?s3 @ map fst (take (Suc k) (st_slots state)), slots_used := slots_used ?s3 @ map fst (take (Suc k) (st_slots state)),
              element_states :=
                foldl (\<lambda>t p. AList.update (fst p) (fold (\<lambda>f. AList.update f False) (filters ?s3) []) t)
                  (element_states ?s3) (take (Suc k) (st_slots state)),
              Dataslot_instances := foldl (\<lambda>t p. AList.update (fst p) (snd p) t) (Dataslot_instances ?s3) (take (Suc k) (st_slots state))\<rparr>"
      and m: "\<exists>p0. path_of t (hd (slots t)) = Some p0
                \<and> f p0 \<noteq> f (slot_path (snd (st_slots state ! k)))"
      by blast
    from t have "t = s\<lparr>filters := map fst (st_filters state),
                   filters_used := st_filters_used state,
                   plots := map fst (st_plots state),
                   slots := map fst (take (Suc k) (st_slots state)),
                   slots_used := map fst (take (Suc k) (st_slots state)),
                   element_states :=
                     foldl (\<lambda>t p. AList.update (fst p)
                              (fold (\<lambda>f. AList.update f False) (map fst (st_filters state)) []) t)
                       [] (take (Suc k) (st_slots state)),
                   old_state := Some
                     \<lparr>old_filters = st_filters state, old_plots = st_plots state,
                      old_slots = st_slots state, old_filters_used = None,
                      old_slots_used = Some (st_slots_used state),
                      old_elements = Some (st_elements state)\<rparr>,
                   Filter_instances :=
                     foldl (\<lambda>t p. AList.update (fst p) (snd p) t) (Filter_instances s) (st_filters state),
                   Plot_instances :=
                     foldl (\<lambda>t p. AList.update (fst p) (snd p) t) (Plot_instances s) (st_plots state),
                   Dataslot_instances :=
                     foldl (\<lambda>t p. AList.update (fst p) (snd p) t) (Dataslot_instances s)
                       (take (Suc k) (st_slots state))\<rparr>"
      by (cases s) simp
    with e k m show ?thesis by blast
  qed
  have again: "setstate f state s' = Inr ((), s')" if r: "setstate f state s = Inr ((), s')"
  proof (cases ?G)
    case True
    with r have "s' = s" by (simp add: setstate_def)
    with True show ?thesis by (simp add: setstate_def)
  next
    case False
    from ret [OF False r] have "old_state_value s' = Some state" by (rule conjunct2)
    then show ?thesis by (simp add: setstate_def state_eq_refl)
  qed
  from skip ret rai again show ?thesis by blast
qed

theorem setstate_skips_or_restores_witness:
  "(case old_state_value state_applied of None \<Rightarrow> False | Some old \<Rightarrow> state_eq old example_state)
   \<and> setstate example_features example_state state_applied = Inr ((), state_applied)
   \<and> \<not> (case old_state_value Pipeline of None \<Rightarrow> False | Some old \<Rightarrow> state_eq old example_state)
   \<and> setstate example_features example_state Pipeline = Inr ((), state_applied)
   \<and> state_applied = Pipeline\<lparr>filters := map fst (st_filters example_state),
                        filters_used := st_filters_used example_state,
                        plots := map fst (st_plots example_state),
                        slots := map fst (st_slots example_state),
                        slots_used := st_slots_used example_state,
                        element_states := st_elements example_state,
                        old_state := Some
                          \<lparr>old_filters = st_filters example_state, old_plots = st_plots example_state,
                           old_slots = st_slots example_state, old_filters_used = None,
                           old_slots_used = None, old_elements = None\<rparr>,
                        Filter_instances :=
                          foldl (\<lambda>t p. AList.update (fst p) (snd p) t) (Filter_instances Pipeline) (st_filters example_state),
                        Plot_instances :=
                          foldl (\<lambda>t p. AList.update (fst p) (snd p) t) (Plot_instances Pipeline) (st_plots example_state),
                        Dataslot_instances :=
                          foldl (\<lambda>t p. AList.update (fst p) (snd p) t) (Dataslot_instances Pipeline) (st_slots example_state)\<rparr>
   \<and> old_state_value state_applied = Some example_state
   \<and> \<not> (case old_state_value Pipeline of None \<Rightarrow> False | Some old \<Rightarrow> state_eq old mixed_state)
   \<and> setstate example_features mixed_state Pipeline
       = Inl (ValueError, after (setstate example_features mixed_state Pipeline))
   \<and> (\<exists>k. k < length (st_slots mixed_state)
         \<and> after (setstate example_features mixed_state Pipeline) = Pipeline\<lparr>filters := map fst (st_filters mixed_state),
                        filters_used := st_filters_used mixed_state,
                        plots := map fst (st_plots mixed_state),
                        slots := map fst (take (Suc k) (st_slots mixed_state)),
                        slots_used := map fst (take (Suc k) (st_slots mixed_state)),
                        element_states :=
                          foldl (\<lambda>t p. AList.update (fst p)
                                   (fold (\<lambda>f. AList.update f False) (map fst (st_filters mixed_state)) []) t)
                            [] (take (Suc k) (st_slots mixed_state)),
                        old_state := Some
                          \<lparr>old_filters = st_filters mixed_state, old_plots = st_plots mixed_state,
                           old_slots = st_slots mixed_state, old_filters_used = None,
                           old_slots_used = Some (st_slots_used mixed_state),
                           old_elements = Some (st_elements mixed_state)\<rparr>,
                        Filter_instances :=
                          foldl (\<lambda>t p. AList.update (fst p) (snd p) t) (Filter_instances Pipeline) (st_filters mixed_state),
                        Plot_instances :=
                          foldl (\<lambda>t p. AList.update (fst p) (snd p) t) (Plot_instances Pipeline) (st_plots mixed_state),
                        Dataslot_instances :=
                          foldl (\<lambda>t p. AList.update (fst p) (snd p) t) (Dataslot_instances Pipeline)
                            (take (Suc k) (st_slots mixed_state))\<rparr>
            \<and> (\<exists>p0. path_of (after (setstate example_features mixed_state Pipeline)) (hd (slots (after (setstate example_features mixed_state Pipeline)))) = Some p0
                  \<and> example_features p0 \<noteq> example_features (slot_path (snd (st_slots mixed_state ! k)))))"
proof -
  have g1: "(case old_state_value state_applied of None \<Rightarrow> False | Some old \<Rightarrow> state_eq old example_state)"
    by code_simp
  have g2: "\<not> (case old_state_value Pipeline of None \<Rightarrow> False | Some old \<Rightarrow> state_eq old example_state)"
    by code_simp
  have r2: "setstate example_features example_state Pipeline = Inr ((), state_applied)"
    by code_simp
  have g3: "\<not> (case old_state_value Pipeline of None \<Rightarrow> False | Some old \<Rightarrow> state_eq old mixed_state)"
    by code_simp
  have r3: "setstate example_features mixed_state Pipeline
       = Inl (ValueError, after (setstate example_features mixed_state Pipeline))"
    by code_simp
  note t1 = setstate_skips_or_restores
    [where s = state_applied and state = example_state and f = example_features]
  note t2 = setstate_skips_or_restores
    [where s = Pipeline and state = example_state and f = example_features
       and s' = state_applied]
  note t3 = setstate_skips_or_restores
    [where s = Pipeline and state = mixed_state and f = example_features
       and e = ValueError and t = "after (setstate example_features mixed_state Pipeline)"]
  from t1 g1 have c1: "setstate example_features example_state state_applied
      = Inr ((), state_applied)"
    by blast
  from t2 g2 r2 have c2: "state_applied = Pipeline\<lparr>filters := map fst (st_filters example_state),
                        filters_used := st_filters_used example_state,
                        plots := map fst (st_plots example_state),
                        slots := map fst (st_slots example_state),
                        slots_used := st_slots_used example_state,
                        element_states := st_elements example_state,
                        old_state := Some
                          \<lparr>old_filters = st_filters example_state, old_plots = st_plots example_state,
                           old_slots = st_slots example_state, old_filters_used = None,
                           old_slots_used = None, old_elements = None\<rparr>,
                        Filter_instances :=
                          foldl (\<lambda>t p. AList.update (fst p) (snd p) t) (Filter_instances Pipeline) (st_filters example_state),
                        Plot_instances :=
                          foldl (\<lambda>t p. AList.update (fst p) (snd p) t) (Plot_instances Pipeline) (st_plots example_state),
                        Dataslot_instances :=
                          foldl (\<lambda>t p. AList.update (fst p) (snd p) t) (Dataslot_instances Pipeline) (st_slots example_state)\<rparr>
      \<and> old_state_value state_applied = Some example_state"
    by blast
  from t3 g3 r3 have c3: "\<exists>k. k < length (st_slots mixed_state)
         \<and> after (setstate example_features mixed_state Pipeline) = Pipeline\<lparr>filters := map fst (st_filters mixed_state),
                        filters_used := st_filters_used mixed_state,
                        plots := map fst (st_plots mixed_state),
                        slots := map fst (take (Suc k) (st_slots mixed_state)),
                        slots_used := map fst (take (Suc k) (st_slots mixed_state)),
                        element_states :=
                          foldl (\<lambda>t p. AList.update (fst p)
                                   (fold (\<lambda>f. AList.update f False) (map fst (st_filters mixed_state)) []) t)
                            [] (take (Suc k) (st_slots mixed_state)),
                        old_state := Some
                          \<lparr>old_filters = st_filters mixed_state, old_plots = st_plots mixed_state,
                           old_slots = st_slots mixed_state, old_filters_used = None,
                           old_slots_used = Some (st_slots_used mixed_state),
                           old_elements = Some (st_elements mixed_state)\<rparr>,
                        Filter_instances :=
                          foldl (\<lambda>t p. AList.update (fst p) (snd p) t) (Filter_instances Pipeline) (st_filters mixed_state),
                        Plot_instances :=
                          foldl (\<lambda>t p. AList.update (fst p) (snd p) t) (Plot_instances Pipeline) (st_plots mixed_state),
                        Dataslot_instances :=
                          foldl (\<lambda>t p. AList.update (fst p) (snd p) t) (Dataslot_instances Pipeline)
                            (take (Suc k) (st_slots mixed_state))\<rparr>
            \<and> (\<exists>p0. path_of (after (setstate example_features mixed_state Pipeline)) (hd (slots (after (setstate example_features mixed_state Pipeline)))) = Some p0
                  \<and> example_features p0 \<noteq> example_features (slot_path (snd (st_slots mixed_state ! k))))"
    by blast
  from g1 c1 g2 r2 c2 g3 r3 c3 show ?thesis by blast
qed

text \<open>
  The kept dictionary shares its used lists and its element states with the
  pipeline.  After \<^verbatim>\<open>add_filter\<close> the state applied last no longer equals
  it: applying that state again resets the pipeline and drops the added
  filter, while a different state, one that lists the added filter as used,
  is taken for unchanged.  And when \<^verbatim>\<open>add_slot\<close> raises, the used filters
  are already those of the state while the used slots are not.
\<close>

theorem kept_dictionary_follows_pipeline:
  "setstate example_features example_state Pipeline = Inr ((), state_applied)
   \<and> add_filter None None state_applied = Inr (''Filter_###'', filter_added)
   \<and> filters filter_added = [''F1'', ''Filter_###'']
   \<and> filters (after (setstate example_features example_state filter_added)) = [''F1'']
   \<and> setstate example_features example_state filter_added \<noteq> Inr ((), filter_added)
   \<and> \<not> state_eq example_state_grown example_state
   \<and> st_filters example_state_grown = [(''F1'', filter_one)]
   \<and> setstate example_features example_state_grown filter_added = Inr ((), filter_added)
   \<and> setstate example_features mixed_state Pipeline
       = Inl (ValueError, after (setstate example_features mixed_state Pipeline))
   \<and> st_filters_used mixed_state = [] \<and> st_slots_used mixed_state = []
   \<and> filters (after (setstate example_features mixed_state Pipeline)) = [''F1'']
   \<and> filters_used (after (setstate example_features mixed_state Pipeline)) = []
   \<and> slots_used (after (setstate example_features mixed_state Pipeline)) = [''S1'', ''S2'']"
  by code_simp

subsection \<open>Appending filters\<close>

lemma extend_row_effect:
  assumes "r < length (row_store s)" and "row_store s ! r \<noteq> []"
  shows "\<exists>s'. extend_row new r s = Inr s' \<and> stores_only s s'
    \<and> dataset_store s' = dataset_store s
         @ map RTDC_Hierarchy (take (length new)
             (last (row_store s ! r) # [length (dataset_store s) ..< length (dataset_store s) + length new]))
    \<and> row_store s' = (row_store s)[r := row_store s ! r
         @ [length (dataset_store s) ..< length (dataset_store s) + length new]]"
  using assms
proof (induction new arbitrary: s)
  case Nil
  then show ?case by (simp add: stores_only_refl)
next
  case (Cons f fs)
  define n where "n = length (dataset_store s)"
  define row where "row = row_store s ! r"
  define s1 where "s1 = s\<lparr>dataset_store := dataset_store s @ [RTDC_Hierarchy (last row)],
      row_store := (row_store s)[r := row @ [n]]\<rparr>"
  from Cons.prems have step: "extend_row (f # fs) r s = extend_row fs r s1"
    by (simp add: get_row_def alloc_dataset_def s1_def n_def row_def)
  from Cons.prems have p1: "r < length (row_store s1)" "row_store s1 ! r \<noteq> []"
    by (simp_all add: s1_def)
  from Cons.prems have r1: "row_store s1 ! r = row @ [n]"
    by (simp add: s1_def)
  have d1: "dataset_store s1 = dataset_store s @ [RTDC_Hierarchy (last row)]"
    by (simp add: s1_def)
  have so: "stores_only s s1" by (simp add: s1_def stores_only_def)
  from Cons.IH [OF p1] obtain s' where e: "extend_row fs r s1 = Inr s'"
    and so': "stores_only s1 s'"
    and ds: "dataset_store s' = dataset_store s1
         @ map RTDC_Hierarchy (take (length fs)
             (last (row_store s1 ! r) # [length (dataset_store s1) ..< length (dataset_store s1) + length fs]))"
    and rs: "row_store s' = (row_store s1)[r := row_store s1 ! r
         @ [length (dataset_store s1) ..< length (dataset_store s1) + length fs]]"
    by blast
  have u: "[n ..< Suc (n + length fs)] = n # [Suc n ..< Suc (n + length fs)]"
    by (rule upt_conv_Cons) simp
  from ds d1 r1 have ds': "dataset_store s' = dataset_store s
         @ map RTDC_Hierarchy (take (length (f # fs))
             (last row # [n ..< n + length (f # fs)]))"
    by (simp add: n_def [symmetric] u del: upt_Suc)
  from rs r1 d1 have rs': "row_store s' = (row_store s)[r := row
         @ [n ..< n + length (f # fs)]]"
    by (simp add: n_def [symmetric] u s1_def del: upt_Suc)
  from step e so so' ds' rs' show ?case
    unfolding n_def row_def by (auto intro: stores_only_trans)
qed

lemma hierarchy_origin: "ds_origin (RTDC_Hierarchy p) = HParent p"
  by (simp add: RTDC_Hierarchy_def)

lemma appended_row_extended:
  assumes rs: "row_store s' ! r = row_store s ! r @ [n ..< n + k]"
    and ds: "dataset_store s' = dataset_store s
        @ map RTDC_Hierarchy (take k (last (row_store s ! r) # [n ..< n + k]))"
    and n: "n = length (dataset_store s)"
    and ne: "row_store s ! r \<noteq> []"
  shows "row_extended s s' k r"
proof -
  define row where "row = row_store s ! r"
  have "length (dataset_store s) \<le> (row @ [n ..< n + k]) ! j
      \<and> (row @ [n ..< n + k]) ! j < length (dataset_store s')
      \<and> ds_origin (dataset_store s' ! ((row @ [n ..< n + k]) ! j))
          = HParent ((row @ [n ..< n + k]) ! (j - 1))"
    if j: "j \<in> {length row ..< length row + k}" for j
  proof -
    define i where "i = j - length row"
    from j have i: "i < k" and ji: "j = length row + i" by (auto simp: i_def)
    from i ji have c: "(row @ [n ..< n + k]) ! j = n + i"
      by (simp add: nth_append)
    from i have l: "n + i < length (dataset_store s')"
      by (simp add: ds n)
    from i have d: "dataset_store s' ! (n + i)
        = RTDC_Hierarchy ((last row # [n ..< n + k]) ! i)"
      by (simp add: ds n nth_append row_def)
    have p: "(last row # [n ..< n + k]) ! i = (row @ [n ..< n + k]) ! (j - 1)"
    proof (cases i)
      case 0
      with ji ne show ?thesis
        by (simp add: nth_append last_conv_nth row_def)
    next
      case (Suc i')
      with i ji show ?thesis by (simp add: nth_append)
    qed
    from c l d p show ?thesis by (simp add: hierarchy_origin n)
  qed
  then show ?thesis
    by (simp add: row_extended_def Let_def rs row_def [symmetric])
qed

lemma take_whole_length:
  assumes "take (length ys) xs = ys"
  shows "length ys \<le> length xs"
proof -
  from assms have "length (take (length ys) xs) = length ys" by simp
  then show ?thesis by (simp add: min_def split: if_splits)
qed

lemma row_extended_later:
  assumes x: "row_extended s s1 k r" and rr: "row_store s' ! r = row_store s1 ! r"
    and tk: "take (length (dataset_store s1)) (dataset_store s') = dataset_store s1"
  shows "row_extended s s' k r"
proof -
  from tk have l: "length (dataset_store s1) \<le> length (dataset_store s')"
    by (rule take_whole_length)
  have e: "dataset_store s' ! a = dataset_store s1 ! a" if "a < length (dataset_store s1)" for a
    using that tk by (metis nth_take)
  define old where "old = row_store s ! r"
  define new where "new = row_store s1 ! r"
  from x have a: "take (length old) new = old" and b: "length new = length old + k"
    and c: "\<forall>j \<in> {length old ..< length new}.
               length (dataset_store s) \<le> new ! j
               \<and> new ! j < length (dataset_store s1)
               \<and> ds_origin (dataset_store s1 ! (new ! j)) = HParent (new ! (j - 1))"
    by (simp_all add: row_extended_def Let_def old_def new_def)
  have "\<forall>j \<in> {length old ..< length new}.
               length (dataset_store s) \<le> new ! j
               \<and> new ! j < length (dataset_store s')
               \<and> ds_origin (dataset_store s' ! (new ! j)) = HParent (new ! (j - 1))"
  proof
    fix j
    assume "j \<in> {length old ..< length new}"
    with c have "length (dataset_store s) \<le> new ! j"
      "new ! j < length (dataset_store s1)"
      "ds_origin (dataset_store s1 ! (new ! j)) = HParent (new ! (j - 1))"
      by blast+
    with l e [of "new ! j"] show "length (dataset_store s) \<le> new ! j
               \<and> new ! j < length (dataset_store s')
               \<and> ds_origin (dataset_store s' ! (new ! j)) = HParent (new ! (j - 1))"
      by simp
  qed
  with a b show ?thesis
    by (simp add: row_extended_def Let_def rr old_def new_def)
qed

lemma row_extended_earlier:
  assumes x: "row_extended s1 s' k r" and rr: "row_store s1 ! r = row_store s ! r"
    and l: "length (dataset_store s) \<le> length (dataset_store s1)"
  shows "row_extended s s' k r"
proof -
  define old where "old = row_store s ! r"
  define new where "new = row_store s' ! r"
  from x rr have a: "take (length old) new = old" and b: "length new = length old + k"
    and c: "\<forall>j \<in> {length old ..< length new}.
               length (dataset_store s1) \<le> new ! j
               \<and> new ! j < length (dataset_store s')
               \<and> ds_origin (dataset_store s' ! (new ! j)) = HParent (new ! (j - 1))"
    by (simp_all add: row_extended_def Let_def old_def new_def)
  have "\<forall>j \<in> {length old ..< length new}.
               length (dataset_store s) \<le> new ! j
               \<and> new ! j < length (dataset_store s')
               \<and> ds_origin (dataset_store s' ! (new ! j)) = HParent (new ! (j - 1))"
  proof
    fix j
    assume "j \<in> {length old ..< length new}"
    with c have "length (dataset_store s1) \<le> new ! j"
      "new ! j < length (dataset_store s')"
      "ds_origin (dataset_store s' ! (new ! j)) = HParent (new ! (j - 1))"
      by blast+
    with l show "length (dataset_store s) \<le> new ! j
               \<and> new ! j < length (dataset_store s')
               \<and> ds_origin (dataset_store s' ! (new ! j)) = HParent (new ! (j - 1))"
      by simp
  qed
  with a b show ?thesis
    by (simp add: row_extended_def Let_def old_def new_def)
qed

lemma extend_row_extended:
  assumes "r < length (row_store s)" and "row_store s ! r \<noteq> []"
  shows "\<exists>s'. extend_row new r s = Inr s' \<and> stores_only s s'
    \<and> length (row_store s') = length (row_store s)
    \<and> (\<forall>q. q \<noteq> r \<longrightarrow> row_store s' ! q = row_store s ! q)
    \<and> take (length (dataset_store s)) (dataset_store s') = dataset_store s
    \<and> row_extended s s' (length new) r"
proof -
  from extend_row_effect [OF assms, of new] obtain s' where
    e: "extend_row new r s = Inr s'" and so: "stores_only s s'"
    and ds: "dataset_store s' = dataset_store s
         @ map RTDC_Hierarchy (take (length new)
             (last (row_store s ! r) # [length (dataset_store s) ..< length (dataset_store s) + length new]))"
    and rs: "row_store s' = (row_store s)[r := row_store s ! r
         @ [length (dataset_store s) ..< length (dataset_store s) + length new]]"
    by blast
  from rs assms(1) have rr: "row_store s' ! r = row_store s ! r
         @ [length (dataset_store s) ..< length (dataset_store s) + length new]"
    by simp
  have x: "row_extended s s' (length new) r"
    by (rule appended_row_extended [OF rr ds refl assms(2)])
  from rs have a: "length (row_store s') = length (row_store s)" by simp
  from rs have b: "\<forall>q. q \<noteq> r \<longrightarrow> row_store s' ! q = row_store s ! q" by simp
  from ds have c: "take (length (dataset_store s)) (dataset_store s') = dataset_store s"
    by simp
  from e so a b c x show ?thesis by blast
qed

lemma extend_rows_effect:
  assumes "\<forall>ii \<in> set idxs. ii < length (matrix s)"
    and "distinct (map ((!) (matrix s)) idxs)"
    and "\<forall>ii \<in> set idxs. matrix s ! ii < length (row_store s) \<and> row_store s ! (matrix s ! ii) \<noteq> []"
  shows "\<exists>s'. extend_rows idxs new s = Inr s' \<and> stores_only s s'
    \<and> length (row_store s') = length (row_store s)
    \<and> (\<forall>q. q \<notin> (!) (matrix s) ` set idxs \<longrightarrow> row_store s' ! q = row_store s ! q)
    \<and> take (length (dataset_store s)) (dataset_store s') = dataset_store s
    \<and> (\<forall>ii \<in> set idxs. row_extended s s' (length new) (matrix s ! ii))"
  using assms
proof (induction idxs arbitrary: s)
  case Nil
  then show ?case by (simp add: stores_only_refl)
next
  case (Cons ii rest)
  define r where "r = matrix s ! ii"
  from Cons.prems have ii: "ii < length (matrix s)"
    and rv: "r < length (row_store s)" "row_store s ! r \<noteq> []"
    and nr: "r \<notin> (!) (matrix s) ` set rest"
    and dr: "distinct (map ((!) (matrix s)) rest)"
    by (simp_all add: r_def)
  from extend_row_extended [OF rv, of new] obtain s1 where
    e1: "extend_row new r s = Inr s1" and so1: "stores_only s s1"
    and l1: "length (row_store s1) = length (row_store s)"
    and o1: "\<forall>q. q \<noteq> r \<longrightarrow> row_store s1 ! q = row_store s ! q"
    and t1: "take (length (dataset_store s)) (dataset_store s1) = dataset_store s"
    and x1: "row_extended s s1 (length new) r"
    by blast
  from so1 have m1: "matrix s1 = matrix s" by (simp add: stores_only_def)
  have same: "row_store s1 ! (matrix s ! jj) = row_store s ! (matrix s ! jj)"
    if "jj \<in> set rest" for jj
  proof -
    from that nr have "matrix s ! jj \<noteq> r" by (metis image_eqI)
    with o1 show ?thesis by simp
  qed
  from Cons.prems same l1 m1 have p1: "\<forall>jj \<in> set rest. jj < length (matrix s1)"
    and p3: "\<forall>jj \<in> set rest. matrix s1 ! jj < length (row_store s1)
        \<and> row_store s1 ! (matrix s1 ! jj) \<noteq> []"
    by simp_all
  from dr m1 have p2: "distinct (map ((!) (matrix s1)) rest)" by simp
  from Cons.IH [OF p1 p2 p3] obtain s' where
    e2: "extend_rows rest new s1 = Inr s'" and so2: "stores_only s1 s'"
    and l2: "length (row_store s') = length (row_store s1)"
    and o2: "\<forall>q. q \<notin> (!) (matrix s1) ` set rest \<longrightarrow> row_store s' ! q = row_store s1 ! q"
    and t2: "take (length (dataset_store s1)) (dataset_store s') = dataset_store s1"
    and x2: "\<forall>jj \<in> set rest. row_extended s1 s' (length new) (matrix s1 ! jj)"
    by blast
  from ii e1 e2 have e: "extend_rows (ii # rest) new s = Inr s'"
    by (simp add: r_def)
  from so1 so2 have so: "stores_only s s'" by (rule stores_only_trans)
  from l1 l2 have l: "length (row_store s') = length (row_store s)" by simp
  have o: "\<forall>q. q \<notin> (!) (matrix s) ` set (ii # rest) \<longrightarrow> row_store s' ! q = row_store s ! q"
  proof (intro allI impI)
    fix q
    assume "q \<notin> (!) (matrix s) ` set (ii # rest)"
    then have "q \<noteq> r" "q \<notin> (!) (matrix s1) ` set rest" by (simp_all add: r_def m1)
    with o1 o2 show "row_store s' ! q = row_store s ! q" by simp
  qed
  from t1 have le: "length (dataset_store s) \<le> length (dataset_store s1)"
    by (rule take_whole_length)
  have "take (length (dataset_store s)) (dataset_store s')
      = take (length (dataset_store s)) (take (length (dataset_store s1)) (dataset_store s'))"
    using le by (simp add: min_def)
  with t1 t2 have tk: "take (length (dataset_store s)) (dataset_store s') = dataset_store s"
    by simp
  have x: "\<forall>jj \<in> set (ii # rest). row_extended s s' (length new) (matrix s ! jj)"
  proof
    fix jj
    assume j: "jj \<in> set (ii # rest)"
    show "row_extended s s' (length new) (matrix s ! jj)"
    proof (cases "matrix s ! jj = r")
      case True
      from nr o2 m1 have "row_store s' ! r = row_store s1 ! r" by simp
      from row_extended_later [OF x1 this t2] True show ?thesis by simp
    next
      case False
      with j have jr: "jj \<in> set rest" by (auto simp: r_def)
      with x2 m1 have "row_extended s1 s' (length new) (matrix s ! jj)" by simp
      from row_extended_earlier [OF this same [OF jr] le] show ?thesis .
    qed
  qed
  from e so l o tk x show ?case by blast
qed

lemma row_extended_stores:
  "row_store t = row_store s' \<Longrightarrow> dataset_store t = dataset_store s' \<Longrightarrow>
     row_extended s t k r = row_extended s s' k r"
  by (simp add: row_extended_def)

text \<open>
  C2: let the cached fingerprint differ from the current one, the slot
  identifiers be those of the cached matrix and the filter identifiers be
  the cached ones followed by new ones.  If the matrix has one row per slot,
  its rows are distinct objects and none is empty, then \<^verbatim>\<open>construct_matrix\<close>
  returns, the matrix lists the same row objects, every dataset that existed
  is unchanged, and every row keeps its cells and gains exactly one new cell
  per appended filter, each a new hierarchy child of the cell before it (the
  first of them of the row's previous last cell).
\<close>

theorem construct_matrix_extends_distinct_rows:
  "matrix_hash s \<noteq> Some (hashobj (slots s, filters s))
   \<and> matrix_slots s = slots s \<and> filters s = matrix_filters s @ new \<and> new \<noteq> []
   \<and> length (matrix s) = length (slots s) \<and> distinct (matrix s)
   \<and> (\<forall>r \<in> set (matrix s). r < length (row_store s) \<and> row_store s ! r \<noteq> [])
   \<longrightarrow> (\<exists>s'. construct_matrix s = Inr ((), s')
          \<and> filters_appended s s' (length new)
          \<and> matrix_slots s' = slots s \<and> matrix_filters s' = filters s)"
proof
  assume h: "matrix_hash s \<noteq> Some (hashobj (slots s, filters s))
   \<and> matrix_slots s = slots s \<and> filters s = matrix_filters s @ new \<and> new \<noteq> []
   \<and> length (matrix s) = length (slots s) \<and> distinct (matrix s)
   \<and> (\<forall>r \<in> set (matrix s). r < length (row_store s) \<and> row_store s ! r \<noteq> [])"
  then have hash: "matrix_hash s \<noteq> Some (hashobj (slots s, filters s))"
    and ms: "matrix_slots s = slots s" and fs: "filters s = matrix_filters s @ new"
    and ne: "new \<noteq> []" and len: "length (matrix s) = length (slots s)"
    and dist: "distinct (matrix s)"
    and rows: "\<forall>r \<in> set (matrix s). r < length (row_store s) \<and> row_store s ! r \<noteq> []"
    by blast+
  have idx: "map ((!) (matrix s)) [0 ..< length (slots s)] = matrix s"
    by (simp add: len [symmetric] map_nth)
  have a1: "\<forall>ii \<in> set [0 ..< length (slots s)]. ii < length (matrix s)"
    by (simp add: len)
  from dist have a2: "distinct (map ((!) (matrix s)) [0 ..< length (slots s)])"
    by (simp only: idx)
  from rows have a3: "\<forall>ii \<in> set [0 ..< length (slots s)].
      matrix s ! ii < length (row_store s) \<and> row_store s ! (matrix s ! ii) \<noteq> []"
    by (simp add: len)
  from extend_rows_effect [OF a1 a2 a3, of new] obtain s1 where
    e: "extend_rows [0 ..< length (slots s)] new s = Inr s1" and so: "stores_only s s1"
    and tk: "take (length (dataset_store s)) (dataset_store s1) = dataset_store s"
    and x: "\<forall>ii \<in> set [0 ..< length (slots s)]. row_extended s s1 (length new) (matrix s ! ii)"
    by blast
  define s' where "s' = s1\<lparr>matrix := matrix s1,
      matrix_hash := Some (hashobj (slots s, filters s)),
      matrix_slots := slots s, matrix_filters := filters s\<rparr>"
  from fs ne have n1: "matrix_filters s \<noteq> filters s" by simp
  from fs have n2: "matrix_filters s = take (length (matrix_filters s)) (filters s)"
    and n3: "drop (length (matrix_filters s)) (filters s) = new"
    by simp_all
  from n2 have n2': "(matrix_filters s = take (length (matrix_filters s)) (filters s)) = True"
    by simp
  from hash n1 ms e have c: "construct_matrix s = Inr ((), s')"
    by (simp add: construct_matrix_def Let_def n2' n3 s'_def)
  from so have m: "matrix s' = matrix s" by (simp add: s'_def stores_only_def)
  have st: "row_store s' = row_store s1" "dataset_store s' = dataset_store s1"
    by (simp_all add: s'_def)
  have "\<forall>r \<in> set (matrix s). row_extended s s' (length new) r"
  proof
    fix r
    assume "r \<in> set (matrix s)"
    then obtain ii where "ii < length (matrix s)" "r = matrix s ! ii"
      by (auto simp: in_set_conv_nth)
    with x len have "row_extended s s1 (length new) r" by simp
    then show "row_extended s s' (length new) r"
      by (simp add: row_extended_stores [OF st])
  qed
  with m tk st have "filters_appended s s' (length new)"
    by (simp add: filters_appended_def)
  moreover have "matrix_slots s' = slots s" "matrix_filters s' = filters s"
    by (simp_all add: s'_def)
  ultimately show "\<exists>s'. construct_matrix s = Inr ((), s')
          \<and> filters_appended s s' (length new)
          \<and> matrix_slots s' = slots s \<and> matrix_filters s' = filters s"
    using c by blast
qed

theorem construct_matrix_extends_distinct_rows_witness:
  "matrix_hash second_filter_appended
      \<noteq> Some (hashobj (slots second_filter_appended, filters second_filter_appended))
   \<and> matrix_slots second_filter_appended = slots second_filter_appended
   \<and> filters second_filter_appended = matrix_filters second_filter_appended @ [''F2'']
   \<and> length (matrix second_filter_appended) = length (slots second_filter_appended)
   \<and> distinct (matrix second_filter_appended)
   \<and> matrix second_filter_appended = [0, 1]
   \<and> row_store second_filter_appended = [[0, 1], [2, 3]]
   \<and> construct_matrix second_filter_appended
        = Inr ((), after (construct_matrix second_filter_appended))
   \<and> row_store (after (construct_matrix second_filter_appended)) = [[0, 1, 4], [2, 3, 5]]
   \<and> filters_appended second_filter_appended
        (after (construct_matrix second_filter_appended)) (length [''F2''])"
proof -
  have h: "matrix_hash second_filter_appended
      \<noteq> Some (hashobj (slots second_filter_appended, filters second_filter_appended))
   \<and> matrix_slots second_filter_appended = slots second_filter_appended
   \<and> filters second_filter_appended = matrix_filters second_filter_appended @ [''F2'']
   \<and> [''F2''] \<noteq> []
   \<and> length (matrix second_filter_appended) = length (slots second_filter_appended)
   \<and> distinct (matrix second_filter_appended)
   \<and> (\<forall>r \<in> set (matrix second_filter_appended).
         r < length (row_store second_filter_appended)
         \<and> row_store second_filter_appended ! r \<noteq> [])"
    by code_simp
  have c: "construct_matrix second_filter_appended
        = Inr ((), after (construct_matrix second_filter_appended))"
    by code_simp
  have v: "matrix second_filter_appended = [0, 1]
   \<and> row_store second_filter_appended = [[0, 1], [2, 3]]
   \<and> row_store (after (construct_matrix second_filter_appended)) = [[0, 1, 4], [2, 3, 5]]"
    by code_simp
  from construct_matrix_extends_distinct_rows
    [where s = second_filter_appended and new = "[''F2'']", rule_format, OF h] c
  have "filters_appended second_filter_appended
        (after (construct_matrix second_filter_appended)) (length [''F2''])"
    by auto
  with h c v show ?thesis by blast
qed

text \<open>
  Where the same slot is listed twice, the branch "only a slot was
  added/removed" puts one row object into the matrix twice, and the branch
  "only a filter was added" then extends that row once per slot: two new
  cells for one appended filter.
\<close>

theorem shared_row_is_extended_twice:
  "matrix_hash slot_twice_then_filter
      \<noteq> Some (hashobj (slots slot_twice_then_filter, filters slot_twice_then_filter))
   \<and> matrix_slots slot_twice_then_filter = slots slot_twice_then_filter
   \<and> filters slot_twice_then_filter = matrix_filters slot_twice_then_filter @ [''F1'']
   \<and> matrix slot_twice_then_filter = [0, 0]
   \<and> row_store slot_twice_then_filter = [[0]]
   \<and> construct_matrix slot_twice_then_filter
        = Inr ((), after (construct_matrix slot_twice_then_filter))
   \<and> row_store (after (construct_matrix slot_twice_then_filter)) = [[0, 1, 2]]
   \<and> \<not> filters_appended slot_twice_then_filter
          (after (construct_matrix slot_twice_then_filter)) (length [''F1''])"
  by code_simp

subsection \<open>Counting\<close>

text \<open>
  C10: \<^verbatim>\<open>num_plots\<close> is the number of filters: it always equals
  \<^verbatim>\<open>num_filters\<close>, and it is the length of the plot list exactly when the
  filter list and the plot list have the same length.
\<close>

theorem num_plots_counts_filters:
  "num_plots s = num_filters s
   \<and> (num_plots s = length (plots s)) = (length (filters s) = length (plots s))"
  by (simp add: num_plots_def num_filters_def)

end
